theory Spec2Isabelle
  imports Main "HOL-Library.AList" "HOL-Library.Sublist"
begin

section \<open>Values, exceptions and collaborator calls\<close>

text \<open>
  The tap is the Python module \<^verbatim>\<open>tap_xero/__init__.py\<close>. Its data are Python objects
  read from JSON files (configuration, state, catalog, schema documents), so one type of
  JSON values serves for all of them. A dict keeps its insertion order and has unique
  keys: it is an association list, read with \<open>map_of\<close> and written with
  \<open>AList.update\<close> (which replaces the value in place or appends the new key, as an
  assignment \<^verbatim>\<open>d[k] = v\<close> does). Floating-point numbers are left out: no function of
  the module computes with them.
\<close>

datatype json =
    JNull
  | JBool bool
  | JNum int
  | JStr string
  | JArr "json list"
  | JObj "(string \<times> json) list"

text \<open>Python's truth value of an object, as \<^verbatim>\<open>if x\<close> tests it.\<close>

fun truthy :: "json \<Rightarrow> bool" where
  "truthy JNull = False"
| "truthy (JBool b) = b"
| "truthy (JNum n) = (n \<noteq> 0)"
| "truthy (JStr s) = (s \<noteq> [])"
| "truthy (JArr xs) = (xs \<noteq> [])"
| "truthy (JObj kvs) = (kvs \<noteq> [])"

text \<open>
  An exception is identified by its class. The built-in classes the module's own
  statements raise are constructors; \<open>Raised name\<close> is an exception of any other class,
  raised inside a collaborator. All of them derive from \<^verbatim>\<open>Exception\<close>.
\<close>

datatype error =
    ValueError
  | KeyError
  | TypeError
  | AttributeError
  | RecursionError
  | Raised string

type_synonym config = "(string \<times> json) list"
type_synonym state = "(string \<times> json) list"
type_synonym metadata_list = "(string list \<times> (string \<times> json) list) list"

text \<open>
  A \<^verbatim>\<open>CatalogEntry\<close> as \<^verbatim>\<open>discover\<close> builds it (line 79), its attributes prefixed
  with \<open>cs_\<close> after the loop variable of line 102; a catalog is the list
  \<^verbatim>\<open>catalog.streams\<close>.
\<close>

record catalog_entry =
  cs_stream :: string
  cs_tap_stream_id :: string
  cs_key_properties :: "string list"
  cs_schema :: json
  cs_metadata :: metadata_list

type_synonym catalog = "catalog_entry list"

text \<open>
  The \<^verbatim>\<open>Context\<close> object. Its class lives in \<^verbatim>\<open>context.py\<close>; the module
  constructs it from four values (lines 135, 143, 145) and reads \<^verbatim>\<open>ctx.state\<close> and
  \<^verbatim>\<open>ctx.catalog\<close>. The dicts are shared with the caller, so every function that may
  mutate them returns the context.
\<close>

record ctx =
  config :: config
  state :: state
  catalog :: catalog
  config_path :: string

text \<open>
  Modelled from the spec: the stream descriptors of \<^verbatim>\<open>streams.py\<close> are not part of the
  source at hand. Section 3 gives a descriptor a unique name, its primary-key fields, a
  replication method, an optional bookmark key and an extraction procedure. The module
  reads the attributes \<^verbatim>\<open>tap_stream_id\<close>, \<^verbatim>\<open>pk_fields\<close>, \<^verbatim>\<open>replication_method\<close>,
  \<^verbatim>\<open>bookmark_key\<close> and calls \<^verbatim>\<open>stream.sync(ctx)\<close>, which may fail and may mutate the
  context.
\<close>

record stream_desc =
  tap_stream_id :: string
  pk_fields :: "string list"
  replication_method :: string
  bookmark_key :: "string option"
  stream_sync :: "ctx \<Rightarrow> error + ctx"

text \<open>
  What the process does to the outside world is a trace of events: one event for each call
  of a collaborator, recorded when the call is made, whether it then succeeds or raises.
\<close>

datatype event =
    LogInfo string
  | LogCritical error
  | RefreshCredentials
  | CheckPlatformAccess
  | WriteState state
  | WriteSchema string json "string list"
  | StreamSync string
  | ClientFromFile "string option"
  | AccessSecretVersion string
  | AddSecretVersion string string
  | DestroySecretVersion string
  | DumpCatalog catalog
  | Print

text \<open>
  A computation yields the events it caused and either the exception that ended it or
  its value. \<open>bind_io\<close> is sequencing: an exception skips the rest.
\<close>

type_synonym 'a io = "event list \<times> (error + 'a)"

definition ret :: "'a \<Rightarrow> 'a io" where
  "ret x = ([], Inr x)"

definition bind_io :: "'a io \<Rightarrow> ('a \<Rightarrow> 'b io) \<Rightarrow> 'b io" where
  "bind_io m f =
     (case m of
        (tr, Inl e) \<Rightarrow> (tr, Inl e)
      | (tr, Inr x) \<Rightarrow> (case f x of (tr', r) \<Rightarrow> (tr @ tr', r)))"

definition call :: "event \<Rightarrow> error + 'a \<Rightarrow> 'a io" where
  "call ev r = ([ev], r)"

definition pure_io :: "error + 'a \<Rightarrow> 'a io" where
  "pure_io r = ([], r)"

text \<open>
  The value of \<^verbatim>\<open>utils.parse_args\<close>, with the attributes the module reads
  (\<^verbatim>\<open>args.config\<close> and so on); \<^verbatim>\<open>args.catalog\<close> is a catalog or \<^verbatim>\<open>None\<close>.
\<close>

record args =
  args_config :: config
  args_state :: state
  args_catalog :: "catalog option"
  args_discover :: bool
  args_config_path :: string

text \<open>
  The collaborators and the constants of the modules that are not at hand, as one
  environment. Each function is the answer of the collaborator to a call:
  \<^item> \<open>all_streams\<close> and \<open>all_stream_ids\<close> are the two lists of \<^verbatim>\<open>streams.py\<close>;
  \<^item> \<open>is_selected\<close> is the truth value of \<^verbatim>\<open>CatalogEntry.is_selected()\<close>;
  \<^item> \<open>refresh_credentials\<close> and \<open>check_platform_access\<close> answer with the
    configuration as the client leaves it, \<open>write_state\<close> and \<open>write_schema\<close> are the
    emitters of the \<^verbatim>\<open>singer\<close> library;
  \<^item> \<open>module_dir\<close> is the directory of the module, \<open>load_json\<close> reads a file,
    \<open>schema_from_dict\<close> is a library function;
  \<^item> the interpreter: \<open>recursion_limit\<close> is the depth of calls it allows,
    \<open>int_max_str_digits\<close> its limit on the digits of an integer read from or written
    to a string (0 for none), \<open>unicode_isspace\<close> and \<open>unicode_decimal\<close> are its tables
    for a character outside ASCII (is it white space, and which decimal digit is it),
    \<open>py_repr\<close> is its text for a list or a dict;
  \<^item> \<open>parse_args\<close> is the command line, \<open>environ\<close> the process environment,
    \<open>json_loads\<close> the JSON parser;
  \<^item> the last four are the secret manager's client: \<open>access_secret_version\<close> answers
    with the text of the payload, \<open>add_secret_version\<close> with the name of the new version.
\<close>

record env =
  all_streams :: "stream_desc list"
  all_stream_ids :: "string list"
  is_selected :: "catalog_entry \<Rightarrow> bool"
  refresh_credentials :: "config \<Rightarrow> string \<Rightarrow> error + config"
  check_platform_access :: "config \<Rightarrow> string \<Rightarrow> error + config"
  write_state :: "state \<Rightarrow> error + unit"
  write_schema :: "string \<Rightarrow> json \<Rightarrow> string list \<Rightarrow> error + unit"
  module_dir :: string
  load_json :: "string \<Rightarrow> error + json"
  recursion_limit :: nat
  int_max_str_digits :: nat
  unicode_isspace :: "string \<Rightarrow> bool"
  unicode_decimal :: "string \<Rightarrow> nat option"
  py_repr :: "json \<Rightarrow> error + string"
  schema_from_dict :: "json \<Rightarrow> error + json"
  parse_args :: "string list \<Rightarrow> error + args"
  environ :: "(string \<times> string) list"
  from_service_account_file :: "string option \<Rightarrow> error + unit"
  access_secret_version :: "string \<Rightarrow> error + string"
  json_loads :: "string \<Rightarrow> error + json"
  add_secret_version :: "string \<Rightarrow> string \<Rightarrow> error + string"
  destroy_secret_version :: "string \<Rightarrow> error + unit"

section \<open>Strings and integers of the interpreter\<close>

text \<open>
  A Python string is kept as the bytes of its UTF-8 encoding. Its characters are the
  groups of one leading byte and the continuation bytes that follow it.
\<close>

definition is_ascii :: "char \<Rightarrow> bool" where
  "is_ascii c = ((of_char c :: nat) < 128)"

definition is_continuation :: "char \<Rightarrow> bool" where
  "is_continuation c = (let n = (of_char c :: nat) in 128 \<le> n \<and> n < 192)"

function utf8_chars :: "string \<Rightarrow> string list" where
  "utf8_chars [] = []"
| "utf8_chars (c # cs) =
     (c # takeWhile is_continuation cs) # utf8_chars (dropWhile is_continuation cs)"
  by pat_completeness auto
termination
  by (relation "measure length") (auto simp: less_Suc_eq_le length_dropWhile_le)

text \<open>
  The decimal text of an integer, as \<^verbatim>\<open>str\<close>, \<^verbatim>\<open>format\<close> and an f-string write it. The
  interpreter refuses to write more digits than its limit, when the limit is set and
  the digits are more than 640.
\<close>

fun str_nat :: "nat \<Rightarrow> string" where
  "str_nat n = (if n < 10 then [char_of (48 + n)] else str_nat (n div 10) @ [char_of (48 + n mod 10)])"

declare str_nat.simps [simp del]

definition str_int :: "int \<Rightarrow> string" where
  "str_int i = (if i < 0 then CHR ''-'' # str_nat (nat (- i)) else str_nat (nat i))"

definition over_digit_limit :: "env \<Rightarrow> nat \<Rightarrow> bool" where
  "over_digit_limit env digits =
     (640 < digits \<and> 0 < int_max_str_digits env \<and> int_max_str_digits env < digits)"

definition int_str :: "env \<Rightarrow> int \<Rightarrow> error + string" where
  "int_str env i =
     (if over_digit_limit env (length (str_nat (nat \<bar>i\<bar>))) then Inl ValueError
      else Inr (str_int i))"

text \<open>
  \<^verbatim>\<open>int(s)\<close> for a string. A string with a character outside ASCII is first rewritten:
  each such character becomes a blank if it is white space, its digit if it is a decimal
  digit, and a question mark otherwise. Then the white space of C (tab to carriage
  return, and the blank) around the number is dropped, one sign may come first, and the
  digits may be grouped by single underscores. Anything else is a ValueError, and so are
  more digits than the interpreter's limit.
\<close>

definition to_ascii_char :: "env \<Rightarrow> string \<Rightarrow> string" where
  "to_ascii_char env ch =
     (if length ch = 1 \<and> list_all is_ascii ch then ch
      else if unicode_isspace env ch then '' ''
      else (case unicode_decimal env ch of
              Some d \<Rightarrow> if d < 10 then [char_of (48 + d)] else ''?''
            | None \<Rightarrow> ''?''))"

definition to_ascii :: "env \<Rightarrow> string \<Rightarrow> string" where
  "to_ascii env s =
     (if list_all is_ascii s then s else concat (map (to_ascii_char env) (utf8_chars s)))"

definition is_space :: "char \<Rightarrow> bool" where
  "is_space c = (let n = (of_char c :: nat) in (9 \<le> n \<and> n \<le> 13) \<or> n = 32)"

definition is_digit :: "char \<Rightarrow> bool" where
  "is_digit c = (let n = (of_char c :: nat) in 48 \<le> n \<and> n \<le> 57)"

definition strip :: "string \<Rightarrow> string" where
  "strip s = rev (dropWhile is_space (rev (dropWhile is_space s)))"

fun digits_ok :: "string \<Rightarrow> bool" where
  "digits_ok [] = False"
| "digits_ok [c] = is_digit c"
| "digits_ok (c # d # cs) =
     (is_digit c \<and> (if d = CHR ''_'' then digits_ok cs else digits_ok (d # cs)))"

definition digits_value :: "string \<Rightarrow> nat" where
  "digits_value s = foldl (\<lambda>a c. 10 * a + (of_char c - 48)) 0 (filter (\<lambda>c. c \<noteq> CHR ''_'') s)"

definition py_int :: "env \<Rightarrow> string \<Rightarrow> error + int" where
  "py_int env s =
     (let t = strip (to_ascii env s);
          neg = (t \<noteq> [] \<and> hd t = CHR ''-'');
          body = (if t \<noteq> [] \<and> (hd t = CHR ''-'' \<or> hd t = CHR ''+'') then tl t else t)
      in if digits_ok body \<and> \<not> over_digit_limit env (length (filter is_digit body))
         then Inr (if neg then - int (digits_value body) else int (digits_value body))
         else Inl ValueError)"

text \<open>
  \<^verbatim>\<open>str.lower\<close>: only the letters of ASCII matter for a comparison with an ASCII word,
  since no character outside ASCII has a lower case with an ASCII letter of
  \<^verbatim>\<open>true\<close>. \<^verbatim>\<open>name.split('/').pop()\<close> is the last piece of the split, which is never
  empty. \<^verbatim>\<open>s.encode("UTF-8")\<close>: a string is its bytes already; other values have no such
  method.
\<close>

definition ascii_lower :: "char \<Rightarrow> char" where
  "ascii_lower c =
     (let n = (of_char c :: nat) in if 65 \<le> n \<and> n \<le> 90 then char_of (n + 32) else c)"

fun split :: "char \<Rightarrow> string \<Rightarrow> string list" where
  "split sep [] = [[]]"
| "split sep (c # cs) =
     (if c = sep then [] # split sep cs
      else (case split sep cs of [] \<Rightarrow> [[c]] | w # ws \<Rightarrow> (c # w) # ws))"

fun encode :: "json \<Rightarrow> error + string" where
  "encode (JStr s) = Inr s"
| "encode v = Inl AttributeError"

text \<open>
  The keys of a dict: a list and a dict cannot be keys, and a key is found again by
  equality, where \<^verbatim>\<open>True\<close> equals 1 and \<^verbatim>\<open>False\<close> equals 0. An assignment to a key
  that is there keeps the key and its place.
\<close>

fun hashable :: "json \<Rightarrow> bool" where
  "hashable (JArr xs) = False"
| "hashable (JObj kvs) = False"
| "hashable v = True"

fun key_eq :: "json \<Rightarrow> json \<Rightarrow> bool" where
  "key_eq (JBool b) (JNum n) = (n = (if b then 1 else 0))"
| "key_eq (JNum n) (JBool b) = (n = (if b then 1 else 0))"
| "key_eq a b = (a = b)"

fun dict_get :: "(json \<times> json) list \<Rightarrow> json \<Rightarrow> json option" where
  "dict_get [] k = None"
| "dict_get ((k', v') # kvs) k = (if key_eq k' k then Some v' else dict_get kvs k)"

fun dict_set :: "(json \<times> json) list \<Rightarrow> json \<Rightarrow> json \<Rightarrow> (json \<times> json) list" where
  "dict_set [] k v = [(k, v)]"
| "dict_set ((k', v') # kvs) k v =
     (if key_eq k' k then (k', v) # kvs else (k', v') # dict_set kvs k v)"

section \<open>The schema resolver\<close>

text \<open>
  \<^verbatim>\<open>get_abs_path\<close> (line 35) joins the directory of the module and a relative path with
  \<^verbatim>\<open>os.path.join\<close>: an absolute second part replaces the first, and a separator is
  inserted unless the first part is empty or ends with one.
\<close>

definition os_path_join :: "string \<Rightarrow> string \<Rightarrow> string" where
  "os_path_join a p =
     (if p \<noteq> [] \<and> hd p = CHR ''/'' then p
      else if a = [] \<or> last a = CHR ''/'' then a @ p
      else a @ ''/'' @ p)"

definition get_abs_path :: "env \<Rightarrow> string \<Rightarrow> string" where
  "get_abs_path env path = os_path_join (module_dir env) path"

text \<open>
  Line 40, \<^verbatim>\<open>"schemas/{}.json".format(tap_stream_id)\<close>: the parameter is any value. A
  string is put in as it is, the other values as \<^verbatim>\<open>str\<close> writes them.
\<close>

fun format_id :: "env \<Rightarrow> json \<Rightarrow> error + string" where
  "format_id env (JStr s) = Inr s"
| "format_id env JNull = Inr ''None''"
| "format_id env (JBool b) = Inr (if b then ''True'' else ''False'')"
| "format_id env (JNum n) = int_str env n"
| "format_id env v = py_repr env v"

text \<open>
  Line 42, \<^verbatim>\<open>schema.pop("tap_schema_dependencies", [])\<close>: on a dict the value of the key
  (or the default) and the dict without the key. A list has a \<^verbatim>\<open>pop\<close> of one argument
  (TypeError); the other values have none (AttributeError).
\<close>

fun pop_dependencies :: "json \<Rightarrow> error + (json \<times> json)" where
  "pop_dependencies (JObj kvs) =
     Inr (case map_of kvs ''tap_schema_dependencies'' of None \<Rightarrow> JArr [] | Some v \<Rightarrow> v,
          JObj (AList.delete ''tap_schema_dependencies'' kvs))"
| "pop_dependencies (JArr xs) = Inl TypeError"
| "pop_dependencies v = Inl AttributeError"

text \<open>
  Line 44 iterates over the dependencies: the elements of a list, whatever they are, the
  characters of a string, the keys of a dict; the other values are not iterable.
\<close>

fun iter_ids :: "json \<Rightarrow> error + json list" where
  "iter_ids (JArr xs) = Inr xs"
| "iter_ids (JStr s) = Inr (map JStr (utf8_chars s))"
| "iter_ids (JObj kvs) = Inr (map (\<lambda>kv. JStr (fst kv)) kvs)"
| "iter_ids v = Inl TypeError"

text \<open>
  Lines 43 to 45, the loop that fills \<^verbatim>\<open>refs\<close>: \<open>load\<close> is the recursive call. The
  schema of the dependency is loaded first, then stored under the id, which fails for
  an id that cannot be a key.
\<close>

fun load_refs ::
  "(json \<Rightarrow> error + json) \<Rightarrow> json list \<Rightarrow> (json \<times> json) list \<Rightarrow> error + (json \<times> json) list"
where
  "load_refs load [] refs = Inr refs"
| "load_refs load (sub_stream_id # ids) refs =
     (case load sub_stream_id of
        Inl e \<Rightarrow> Inl e
      | Inr sub \<Rightarrow>
          if hashable sub_stream_id then load_refs load ids (dict_set refs sub_stream_id sub)
          else Inl TypeError)"

text \<open>
  Modelled from the spec: \<^verbatim>\<open>singer.resolve_schema_references\<close> is a function of the
  \<^verbatim>\<open>singer\<close> library. Section 4.1: every reference placeholder in the raw document is
  substituted with the corresponding resolved schema. A placeholder is a dict with the
  entry \<^verbatim>\<open>$ref\<close>, a string; one that has no schema in \<^verbatim>\<open>refs\<close> is left in its place. The
  library updates \<^verbatim>\<open>schema\<close> in place, so the value here is the updated document.
\<close>

fun resolve_schema_references :: "json \<Rightarrow> (json \<times> json) list \<Rightarrow> json" where
  "resolve_schema_references (JObj kvs) refs =
     (case map_of kvs ''$ref'' of
        Some (JStr r) \<Rightarrow>
          (case dict_get refs (JStr r) of
             Some sub \<Rightarrow> sub
           | None \<Rightarrow> JObj (map (\<lambda>kv. (fst kv, resolve_schema_references (snd kv) refs)) kvs))
      | _ \<Rightarrow> JObj (map (\<lambda>kv. (fst kv, resolve_schema_references (snd kv) refs)) kvs))"
| "resolve_schema_references (JArr xs) refs = JArr (map (\<lambda>x. resolve_schema_references x refs) xs)"
| "resolve_schema_references v refs = v"

text \<open>
  \<^verbatim>\<open>load_schema\<close> (line 39). The function calls itself once for each dependency, with
  no record of the ids it is already loading. The Python interpreter bounds the depth of
  nested calls and raises \<^verbatim>\<open>RecursionError\<close> beyond it: the first argument is the
  number of nested calls of \<^verbatim>\<open>load_schema\<close> the interpreter still allows, the
  third the parameter \<^verbatim>\<open>tap_stream_id\<close>. \<^verbatim>\<open>utils.load_json\<close> is a library function,
  taken from the environment.
\<close>

primrec load_schema :: "nat \<Rightarrow> env \<Rightarrow> json \<Rightarrow> error + json" where
  "load_schema 0 env sid = Inl RecursionError"
| "load_schema (Suc depth) env sid =
     (case format_id env sid of
        Inl e \<Rightarrow> Inl e
      | Inr name \<Rightarrow>
          (case load_json env (get_abs_path env (''schemas/'' @ name @ ''.json'')) of
             Inl e \<Rightarrow> Inl e
           | Inr doc \<Rightarrow>
               (case pop_dependencies doc of
                  Inl e \<Rightarrow> Inl e
                | Inr (dependencies, schema) \<Rightarrow>
                    (case iter_ids dependencies of
                       Inl e \<Rightarrow> Inl e
                     | Inr ids \<Rightarrow>
                         (case load_refs (load_schema depth env) ids [] of
                            Inl e \<Rightarrow> Inl e
                          | Inr refs \<Rightarrow>
                              if refs \<noteq> [] then Inr (resolve_schema_references schema refs)
                              else Inr schema)))))"

text \<open>\<^verbatim>\<open>load_and_write_schema\<close> (line 89): the schema is loaded, then emitted.\<close>

definition load_and_write_schema :: "env \<Rightarrow> stream_desc \<Rightarrow> unit io" where
  "load_and_write_schema env s =
     bind_io (pure_io (load_schema (recursion_limit env) env (JStr (tap_stream_id s)))) (\<lambda>sch.
       call (WriteSchema (tap_stream_id s) sch (pk_fields s))
            (write_schema env (tap_stream_id s) sch (pk_fields s)))"

section \<open>The sync scheduler\<close>

text \<open>
  Modelled from the spec: the methods of \<^verbatim>\<open>Context\<close> are in \<^verbatim>\<open>context.py\<close>, which is
  not at hand. \<^verbatim>\<open>refresh_credentials\<close> exchanges the refresh token and replaces it in the
  configuration (section 4.3); \<^verbatim>\<open>check_platform_access\<close> is the validation probe;
  \<^verbatim>\<open>write_state\<close> hands \<^verbatim>\<open>ctx.state\<close> to the persistence sink (section 6).
\<close>

definition ctx_refresh_credentials :: "env \<Rightarrow> ctx \<Rightarrow> ctx io" where
  "ctx_refresh_credentials env c =
     call RefreshCredentials
       (map_sum id (\<lambda>cfg. c\<lparr>config := cfg\<rparr>) (refresh_credentials env (config c) (config_path c)))"

definition ctx_check_platform_access :: "env \<Rightarrow> ctx \<Rightarrow> ctx io" where
  "ctx_check_platform_access env c =
     call CheckPlatformAccess
       (map_sum id (\<lambda>cfg. c\<lparr>config := cfg\<rparr>) (check_platform_access env (config c) (config_path c)))"

definition ctx_write_state :: "env \<Rightarrow> ctx \<Rightarrow> unit io" where
  "ctx_write_state env c = call (WriteState (state c)) (write_state env (state c))"

text \<open>
  \<^verbatim>\<open>list.index(x)\<close>: the position of the first element equal to \<^verbatim>\<open>x\<close>, and
  \<^verbatim>\<open>ValueError\<close> when there is none. The list holds strings; a Python string equals
  only a string with the same characters.
\<close>

fun index :: "string list \<Rightarrow> json \<Rightarrow> error + nat" where
  "index [] v = Inl ValueError"
| "index (x # xs) v = (if JStr x = v then Inr 0 else map_sum id Suc (index xs v))"

text \<open>
  Lines 99 to 101: \<^verbatim>\<open>ctx.state.get("currently_syncing")\<close> is \<^verbatim>\<open>None\<close> for an absent key,
  and the conditional expression looks the value up only when it is truthy.
\<close>

definition start_idx :: "string list \<Rightarrow> state \<Rightarrow> error + nat" where
  "start_idx ids st =
     (let currently_syncing = (case map_of st ''currently_syncing'' of None \<Rightarrow> JNull | Some v \<Rightarrow> v)
      in if truthy currently_syncing then index ids currently_syncing else Inr 0)"

text \<open>Lines 102 to 105: the working list, in the order of \<^verbatim>\<open>all_streams\<close>.\<close>

definition stream_ids_to_sync :: "env \<Rightarrow> catalog \<Rightarrow> string list" where
  "stream_ids_to_sync env cat = map cs_tap_stream_id (filter (is_selected env) cat)"

definition streams_to_sync :: "env \<Rightarrow> nat \<Rightarrow> catalog \<Rightarrow> stream_desc list" where
  "streams_to_sync env i cat =
     filter (\<lambda>s. tap_stream_id s \<in> set (stream_ids_to_sync env cat)) (drop i (all_streams env))"

text \<open>Lines 106 to 111: the loop over the working list.\<close>

fun sync_loop :: "env \<Rightarrow> stream_desc list \<Rightarrow> ctx \<Rightarrow> ctx io" where
  "sync_loop env [] c = ret c"
| "sync_loop env (s # ss) c =
     (let c1 = c\<lparr>state := AList.update ''currently_syncing'' (JStr (tap_stream_id s)) (state c)\<rparr> in
      bind_io (ctx_write_state env c1) (\<lambda>_.
      bind_io (load_and_write_schema env s) (\<lambda>_.
      bind_io (call (LogInfo (''Syncing stream: '' @ tap_stream_id s)) (Inr ())) (\<lambda>_.
      bind_io (call (StreamSync (tap_stream_id s)) (stream_sync s c1)) (\<lambda>c2.
      sync_loop env ss c2)))))"

text \<open>\<^verbatim>\<open>sync\<close> (line 97).\<close>

definition sync :: "env \<Rightarrow> ctx \<Rightarrow> ctx io" where
  "sync env c0 =
     bind_io (ctx_refresh_credentials env c0) (\<lambda>c.
     bind_io (pure_io (start_idx (all_stream_ids env) (state c))) (\<lambda>i.
     bind_io (sync_loop env (streams_to_sync env i (catalog c)) c) (\<lambda>c'.
     (let c'' = c'\<lparr>state := AList.update ''currently_syncing'' JNull (state c')\<rparr> in
      bind_io (ctx_write_state env c'') (\<lambda>_. ret c'')))))"

section \<open>The metadata builder\<close>

text \<open>
  Subscription \<^verbatim>\<open>d[k]\<close> with a string key: a dict answers with the value or KeyError,
  any other value with TypeError. \<^verbatim>\<open>d.keys()\<close> exists on a dict only.
\<close>

fun subscript :: "json \<Rightarrow> string \<Rightarrow> error + json" where
  "subscript (JObj kvs) k = (case map_of kvs k of None \<Rightarrow> Inl KeyError | Some v \<Rightarrow> Inr v)"
| "subscript v k = Inl TypeError"

fun keys :: "json \<Rightarrow> error + string list" where
  "keys (JObj kvs) = Inr (map fst kvs)"
| "keys v = Inl AttributeError"

text \<open>
  Modelled from the spec: \<^verbatim>\<open>metadata.new\<close>, \<^verbatim>\<open>metadata.write\<close> and
  \<^verbatim>\<open>metadata.to_list\<close> belong to the \<^verbatim>\<open>singer\<close> library. Section 3 describes metadata
  as a mapping from a field path (or the stream root, the empty path) to annotations:
  \<open>metadata_write\<close> sets one annotation at one path, and the list form has one entry
  for each path.
\<close>

definition metadata_new :: metadata_list where
  "metadata_new = []"

definition metadata_write :: "metadata_list \<Rightarrow> string list \<Rightarrow> string \<Rightarrow> json \<Rightarrow> metadata_list" where
  "metadata_write mdata breadcrumb k v =
     AList.update breadcrumb
       (AList.update k v (case map_of mdata breadcrumb of None \<Rightarrow> [] | Some a \<Rightarrow> a)) mdata"

definition metadata_to_list :: "metadata_list \<Rightarrow> metadata_list" where
  "metadata_to_list mdata = mdata"

text \<open>
  \<^verbatim>\<open>load_metadata\<close> (line 50). \<^verbatim>\<open>if stream.bookmark_key\<close> holds for a string that is
  not empty; \<^verbatim>\<open>field_name == stream.bookmark_key\<close> compares a string with a string or
  with \<^verbatim>\<open>None\<close>.
\<close>

definition write_inclusion :: "stream_desc \<Rightarrow> string \<Rightarrow> metadata_list \<Rightarrow> metadata_list" where
  "write_inclusion stream field_name mdata =
     (if field_name \<in> set (pk_fields stream) \<or> Some field_name = bookmark_key stream
      then metadata_write mdata [''properties'', field_name] ''inclusion'' (JStr ''automatic'')
      else metadata_write mdata [''properties'', field_name] ''inclusion'' (JStr ''available''))"

definition load_metadata :: "stream_desc \<Rightarrow> json \<Rightarrow> error + metadata_list" where
  "load_metadata stream schema =
     (let mdata = metadata_new;
          mdata = metadata_write mdata [] ''table-key-properties'' (JArr (map JStr (pk_fields stream)));
          mdata = metadata_write mdata [] ''forced-replication-method'' (JStr (replication_method stream));
          mdata = (case bookmark_key stream of
                     Some b \<Rightarrow>
                       if b \<noteq> [] then metadata_write mdata [] ''valid-replication-keys'' (JArr [JStr b])
                       else mdata
                   | None \<Rightarrow> mdata)
      in case subscript schema ''properties'' of
           Inl e \<Rightarrow> Inl e
         | Inr props \<Rightarrow>
             (case keys props of
                Inl e \<Rightarrow> Inl e
              | Inr field_names \<Rightarrow> Inr (metadata_to_list (fold (write_inclusion stream) field_names mdata))))"

section \<open>Catalog discovery\<close>

text \<open>\<^verbatim>\<open>discover\<close> (line 71); the loop appends one entry for each declared stream.\<close>

fun discover_loop :: "env \<Rightarrow> stream_desc list \<Rightarrow> catalog \<Rightarrow> catalog io" where
  "discover_loop env [] cat = ret cat"
| "discover_loop env (s # ss) cat =
     bind_io (pure_io (load_schema (recursion_limit env) env (JStr (tap_stream_id s)))) (\<lambda>schema_dict.
     bind_io (pure_io (load_metadata s schema_dict)) (\<lambda>mdata.
     bind_io (pure_io (schema_from_dict env schema_dict)) (\<lambda>sch.
     discover_loop env ss
       (cat @ [\<lparr>cs_stream = tap_stream_id s, cs_tap_stream_id = tap_stream_id s,
                cs_key_properties = pk_fields s, cs_schema = sch, cs_metadata = mdata\<rparr>]))))"

definition discover :: "env \<Rightarrow> ctx \<Rightarrow> (catalog \<times> ctx) io" where
  "discover env c =
     bind_io (ctx_check_platform_access env c) (\<lambda>c'.
     bind_io (discover_loop env (all_streams env) []) (\<lambda>cat. ret (cat, c')))"

section \<open>The entry point and the secret store\<close>

text \<open>\<^verbatim>\<open>os.getenv\<close> with a default and \<^verbatim>\<open>os.environ[k]\<close>.\<close>

definition getenv :: "env \<Rightarrow> string \<Rightarrow> string \<Rightarrow> string" where
  "getenv env k d = (case map_of (environ env) k of None \<Rightarrow> d | Some v \<Rightarrow> v)"

definition environ_get :: "env \<Rightarrow> string \<Rightarrow> error + string" where
  "environ_get env k = (case map_of (environ env) k of None \<Rightarrow> Inl KeyError | Some v \<Rightarrow> Inr v)"

text \<open>The test of lines 120 and 147.\<close>

definition secret_manager_enabled :: "env \<Rightarrow> bool" where
  "secret_manager_enabled env =
     (map ascii_lower (getenv env ''GOOGLE_SECRET_MANAGER'' ''false'') = ''true'')"

definition REQUIRED_CONFIG_KEYS :: "string list" where
  "REQUIRED_CONFIG_KEYS =
     [''start_date'', ''client_id'', ''client_secret'', ''tenant_id'', ''refresh_token'']"

text \<open>
  \<^verbatim>\<open>main_impl\<close> (line 117) in its three parts. Lines 120 to 132 read the refresh token and
  the OAuth credentials from the secret store into the configuration.
\<close>

definition fetch_secrets :: "env \<Rightarrow> config \<Rightarrow> config io" where
  "fetch_secrets env cfg =
     bind_io (call (LogInfo ''Getting TAP_XERO_REFRESH_TOKEN from Google Secret Manager'') (Inr ())) (\<lambda>_.
     bind_io (call (ClientFromFile (map_of (environ env) ''GOOGLE_APPLICATION_CREDENTIALS''))
                (from_service_account_file env (map_of (environ env) ''GOOGLE_APPLICATION_CREDENTIALS''))) (\<lambda>_.
     bind_io (pure_io (environ_get env ''SECRET_XERO_REFRESH_TOKEN'')) (\<lambda>s1.
     bind_io (pure_io (environ_get env ''SECRET_XERO_OAUTH_CREDENTIALS'')) (\<lambda>s2.
     bind_io (call (AccessSecretVersion (s1 @ ''/versions/latest''))
                (access_secret_version env (s1 @ ''/versions/latest''))) (\<lambda>token.
     (let cfg1 = AList.update ''refresh_token'' (JStr token) cfg in
     bind_io (call (AccessSecretVersion (s2 @ ''/versions/latest''))
                (access_secret_version env (s2 @ ''/versions/latest''))) (\<lambda>creds.
     bind_io (pure_io (json_loads env creds)) (\<lambda>response_json.
     bind_io (pure_io (subscript response_json ''client_id'')) (\<lambda>cid.
     (let cfg2 = AList.update ''client_id'' cid cfg1 in
     bind_io (pure_io (subscript response_json ''client_secret'')) (\<lambda>csec.
     ret (AList.update ''client_secret'' csec cfg2))))))))))))"

text \<open>
  Lines 134 to 145: discovery, or a sync with the catalog given or discovered. The
  configuration dict is shared with the context, so the part answers with it.
\<close>

definition run_mode :: "env \<Rightarrow> args \<Rightarrow> config \<Rightarrow> config io" where
  "run_mode env a cfg =
     (if args_discover a then
        bind_io (discover env \<lparr>config = cfg, state = [], catalog = [], config_path = args_config_path a\<rparr>)
          (\<lambda>(cat, c).
        bind_io (call (DumpCatalog cat) (Inr ())) (\<lambda>_.
        bind_io (call Print (Inr ())) (\<lambda>_. ret (config c))))
      else
        bind_io
          (case args_catalog a of
             Some cat \<Rightarrow> ret (cat, cfg)
           | None \<Rightarrow>
               bind_io (call (LogInfo ''Running sync without provided Catalog. Discovering.'') (Inr ())) (\<lambda>_.
               bind_io (discover env \<lparr>config = cfg, state = [], catalog = [],
                                       config_path = args_config_path a\<rparr>)
                 (\<lambda>(cat, c). ret (cat, config c))))
          (\<lambda>(cat, cfg').
        bind_io (sync env \<lparr>config = cfg', state = args_state a, catalog = cat,
                              config_path = args_config_path a\<rparr>)
          (\<lambda>c. ret (config c))))"

text \<open>
  Lines 147 to 159: the refresh token is written back as a new version of the secret,
  and the version numbered one less is destroyed. The number of the new version is read
  with \<^verbatim>\<open>int\<close> from the last piece of its name, and the number before it is written
  into the name to destroy and into the log line. No statement of this part handles an
  exception.
\<close>

definition write_back :: "env \<Rightarrow> config \<Rightarrow> unit io" where
  "write_back env cfg =
     bind_io (call (LogInfo ''Writing back TAP_XERO_REFRESH_TOKEN to Google Secret Manager'') (Inr ())) (\<lambda>_.
     bind_io (pure_io (environ_get env ''SECRET_XERO_REFRESH_TOKEN'')) (\<lambda>secret.
     bind_io (pure_io (subscript (JObj cfg) ''refresh_token'')) (\<lambda>token.
     bind_io (pure_io (encode token)) (\<lambda>data.
     bind_io (call (AddSecretVersion secret data) (add_secret_version env secret data)) (\<lambda>version_name.
     bind_io (pure_io (py_int env (last (split CHR ''/'' version_name)))) (\<lambda>newVersionNumber.
     (let oldVersionNumber = newVersionNumber - 1 in
     bind_io (pure_io (environ_get env ''SECRET_XERO_REFRESH_TOKEN'')) (\<lambda>secret'.
     bind_io (pure_io (int_str env oldVersionNumber)) (\<lambda>old_text.
     (let oldVersion = secret' @ ''/versions/'' @ old_text in
     bind_io (call (DestroySecretVersion oldVersion) (destroy_secret_version env oldVersion)) (\<lambda>_.
     bind_io (pure_io (int_str env oldVersionNumber)) (\<lambda>old_text'.
     call (LogInfo (''Destroyed version '' @ old_text'
                      @ '' TAP_XERO_REFRESH_TOKEN from Google Secret Manager'')) (Inr ())))))))))))))"

definition main_impl :: "env \<Rightarrow> unit io" where
  "main_impl env =
     bind_io (pure_io (parse_args env REQUIRED_CONFIG_KEYS)) (\<lambda>a.
     bind_io (if secret_manager_enabled env then fetch_secrets env (args_config a)
              else ret (args_config a)) (\<lambda>cfg.
     bind_io (run_mode env a cfg) (\<lambda>cfg'.
     if secret_manager_enabled env then write_back env cfg' else ret ())))"

text \<open>\<^verbatim>\<open>main\<close> (line 161) logs the exception and raises it again.\<close>

definition main :: "env \<Rightarrow> unit io" where
  "main env =
     (case main_impl env of
        (tr, Inl e) \<Rightarrow> (tr @ [LogCritical e], Inl e)
      | (tr, Inr u) \<Rightarrow> (tr, Inr u))"

section \<open>What a run is seen to do\<close>

text \<open>
  The scheduler's part of a trace: a checkpoint is a state written with
  \<^verbatim>\<open>currently_syncing\<close> set to a stream id, the cleared marker a state written with
  \<^verbatim>\<open>currently_syncing\<close> set to \<^verbatim>\<open>None\<close>; then the schema emitted for a stream and the
  call of its extraction procedure. \<open>plan ss\<close> is what processing the streams \<open>ss\<close>
  one after the other looks like.
\<close>

datatype step = Checkpoint string | SchemaEmitted string | Extraction string | Cleared

fun step_of :: "event \<Rightarrow> step list" where
  "step_of (WriteState st) =
     (case map_of st ''currently_syncing'' of
        Some (JStr i) \<Rightarrow> [Checkpoint i]
      | Some JNull \<Rightarrow> [Cleared]
      | _ \<Rightarrow> [])"
| "step_of (WriteSchema i sch pk) = [SchemaEmitted i]"
| "step_of (StreamSync i) = [Extraction i]"
| "step_of ev = []"

definition steps :: "event list \<Rightarrow> step list" where
  "steps tr = concat (map step_of tr)"

definition plan :: "stream_desc list \<Rightarrow> step list" where
  "plan ss = concat (map (\<lambda>s. [Checkpoint (tap_stream_id s), SchemaEmitted (tap_stream_id s),
                                Extraction (tap_stream_id s)]) ss)"

text \<open>The annotation \<open>k\<close> that a metadata list holds at a path, if any.\<close>

definition metadata_get :: "metadata_list \<Rightarrow> string list \<Rightarrow> string \<Rightarrow> json option" where
  "metadata_get md breadcrumb k = (case map_of md breadcrumb of None \<Rightarrow> None | Some a \<Rightarrow> map_of a k)"

text \<open>
  The calls that change the secret store: adding a version and destroying one.
\<close>

fun is_secret_write :: "event \<Rightarrow> bool" where
  "is_secret_write (AddSecretVersion parent payload) = True"
| "is_secret_write (DestroySecretVersion name) = True"
| "is_secret_write ev = False"

definition secret_writes :: "event list \<Rightarrow> event list" where
  "secret_writes tr = filter is_secret_write tr"







section \<open>A small deployment\<close>

text \<open>
  Three declared streams, as in the example scenario of section 8 of the specification,
  with collaborators that succeed. An entry of the catalog is selected when the root of
  its metadata says so.
\<close>

definition demo_stream :: "string \<Rightarrow> stream_desc" where
  "demo_stream n =
     \<lparr>tap_stream_id = n, pk_fields = [''id''], replication_method = ''FULL_TABLE'',
      bookmark_key = None, stream_sync = Inr\<rparr>"

definition demo_entry :: "string \<Rightarrow> bool \<Rightarrow> catalog_entry" where
  "demo_entry n sel =
     \<lparr>cs_stream = n, cs_tap_stream_id = n, cs_key_properties = [''id''],
      cs_schema = JObj [(''properties'', JObj [])],
      cs_metadata = [([], [(''selected'', JBool sel)])]\<rparr>"

definition demo_args :: args where
  "demo_args =
     \<lparr>args_config = [(''refresh_token'', JStr ''r0'')], args_state = [],
      args_catalog = Some [demo_entry ''contacts'' True], args_discover = False,
      args_config_path = ''config.json''\<rparr>"

definition demo_env :: env where
  "demo_env =
     \<lparr>all_streams = [demo_stream ''bank_transactions'', demo_stream ''contacts'', demo_stream ''invoices''],
      all_stream_ids = [''bank_transactions'', ''contacts'', ''invoices''],
      is_selected = (\<lambda>cs. case map_of (cs_metadata cs) [] of
                            None \<Rightarrow> False
                          | Some a \<Rightarrow> (case map_of a ''selected'' of None \<Rightarrow> False | Some v \<Rightarrow> truthy v)),
      refresh_credentials = (\<lambda>cfg p. Inr cfg),
      check_platform_access = (\<lambda>cfg p. Inr cfg),
      write_state = (\<lambda>st. Inr ()),
      write_schema = (\<lambda>i sch pk. Inr ()),
      module_dir = ''/opt/tap_xero'',
      load_json = (\<lambda>p. Inr (JObj [(''properties'', JObj [])])),
      recursion_limit = 1000,
      int_max_str_digits = 4300,
      unicode_isspace = (\<lambda>ch. False),
      unicode_decimal = (\<lambda>ch. None),
      py_repr = (\<lambda>v. Inr ''[...]''),
      schema_from_dict = Inr,
      parse_args = (\<lambda>ks. Inr demo_args),
      environ = [(''GOOGLE_SECRET_MANAGER'', ''True''), (''SECRET_XERO_REFRESH_TOKEN'', ''projects/p/secrets/token''),
                 (''SECRET_XERO_OAUTH_CREDENTIALS'', ''projects/p/secrets/oauth'')],
      from_service_account_file = (\<lambda>f. Inr ()),
      access_secret_version = (\<lambda>n. Inr ''r1''),
      json_loads = (\<lambda>s. Inr (JObj [(''client_id'', JStr ''id''), (''client_secret'', JStr ''secret'')])),
      add_secret_version = (\<lambda>p d. Inr (p @ ''/versions/5'')),
      destroy_secret_version = (\<lambda>n. Inr ())\<rparr>"

definition demo_ctx :: "json \<Rightarrow> catalog \<Rightarrow> ctx" where
  "demo_ctx cur cat =
     \<lparr>config = [], state = [(''currently_syncing'', cur)], catalog = cat, config_path = ''config.json''\<rparr>"

definition demo_catalog :: catalog where
  "demo_catalog = [demo_entry ''contacts'' True, demo_entry ''invoices'' True]"

definition demo_catalog_reordered :: catalog where
  "demo_catalog_reordered =
     [demo_entry ''invoices'' True, demo_entry ''bank_transactions'' False, demo_entry ''contacts'' True]"

text \<open>An incremental stream and its schema.\<close>

definition demo_invoices :: stream_desc where
  "demo_invoices =
     \<lparr>tap_stream_id = ''invoices'', pk_fields = [''InvoiceID''], replication_method = ''INCREMENTAL'',
      bookmark_key = Some ''UpdatedDateUTC'', stream_sync = Inr\<rparr>"

definition demo_invoices_properties :: "(string \<times> json) list" where
  "demo_invoices_properties =
     [(''InvoiceID'', JObj [(''type'', JStr ''string'')]),
      (''Total'', JObj [(''type'', JStr ''number'')]),
      (''UpdatedDateUTC'', JObj [(''type'', JStr ''string'')])]"

definition demo_invoices_schema :: json where
  "demo_invoices_schema =
     JObj [(''type'', JArr [JStr ''null'', JStr ''object'']),
           (''properties'', JObj demo_invoices_properties)]"

text \<open>The same deployment with a secret store that refuses to destroy a version.\<close>

definition demo_env_destroy_fails :: env where
  "demo_env_destroy_fails =
     demo_env\<lparr>destroy_secret_version := (\<lambda>name. Inl (Raised ''NotFound''))\<rparr>"








text \<open>
  For the scheduler: a catalog in which the stream of the marker is selected, an earlier
  stream is selected too and a later one is not; and a declared order that holds a
  stream with the empty id.
\<close>

definition demo_catalog_partial :: catalog where
  "demo_catalog_partial =
     [demo_entry ''bank_transactions'' True, demo_entry ''contacts'' True, demo_entry ''invoices'' False]"

definition demo_env_empty_id :: env where
  "demo_env_empty_id =
     demo_env\<lparr>all_streams := [demo_stream ''contacts'', demo_stream []],
              all_stream_ids := [''contacts'', []]\<rparr>"

definition demo_catalog_empty_id :: catalog where
  "demo_catalog_empty_id = [demo_entry ''contacts'' True, demo_entry [] True]"

section \<open>The scheduler follows its plan\<close>

lemma bind_io_pair:
  "bind_io (tr, r) f = (case r of Inl e \<Rightarrow> (tr, Inl e) | Inr x \<Rightarrow> (tr @ fst (f x), snd (f x)))"
  by (simp add: bind_io_def split: prod.splits sum.splits)

lemma steps_simps [simp]:
  "steps [] = []" "steps (ev # tr) = step_of ev @ steps tr" "steps (tr @ tr') = steps tr @ steps tr'"
  by (simp_all add: steps_def)

lemma plan_simps [simp]:
  "plan [] = []"
  "plan (s # ss) = Checkpoint (tap_stream_id s) # SchemaEmitted (tap_stream_id s) # Extraction (tap_stream_id s) # plan ss"
  by (simp_all add: plan_def)

lemma map_of_update_same [simp]: "map_of (AList.update k v al) k = Some v"
  by (simp add: update_conv')

lemma sync_loop_steps:
  "prefix (steps (fst (sync_loop env ss c))) (plan ss)
   \<and> (\<forall>c'. snd (sync_loop env ss c) = Inr c' \<longrightarrow> steps (fst (sync_loop env ss c)) = plan ss)"
proof (induction ss arbitrary: c)
  case Nil
  show ?case by (simp add: ret_def)
next
  case (Cons s ss)
  show ?case
    using Cons.IH
    by (auto simp: bind_io_pair Let_def ctx_write_state_def load_and_write_schema_def call_def pure_io_def
             split: sum.splits)
qed

lemma sync_steps:
  assumes "start_idx (all_stream_ids env) (state c) = Inr i"
  shows "prefix (steps (fst (sync env c))) (plan (streams_to_sync env i (catalog c)) @ [Cleared])
   \<and> (\<forall>c'. snd (sync env c) = Inr c' \<longrightarrow>
          steps (fst (sync env c)) = plan (streams_to_sync env i (catalog c)) @ [Cleared])"
proof (cases "refresh_credentials env (config c) (config_path c)")
  case (Inl e)
  then show ?thesis
    by (simp add: sync_def ctx_refresh_credentials_def call_def bind_io_pair)
next
  case (Inr cfg)
  let ?ss = "streams_to_sync env i (catalog c)"
  let ?c1 = "c\<lparr>config := cfg\<rparr>"
  obtain tr r where loop: "sync_loop env ?ss ?c1 = (tr, r)"
    by (cases "sync_loop env ?ss ?c1")
  from sync_loop_steps[of env ?ss ?c1] loop
  have pre: "prefix (steps tr) (plan ?ss)" and full: "\<And>c'. r = Inr c' \<Longrightarrow> steps tr = plan ?ss"
    by simp_all
  have eq: "sync env c =
      (case r of Inl e \<Rightarrow> (RefreshCredentials # tr, Inl e)
       | Inr c' \<Rightarrow>
          (let c'' = c'\<lparr>state := AList.update ''currently_syncing'' JNull (state c')\<rparr> in
           (RefreshCredentials # tr @ [WriteState (state c'')],
            case write_state env (state c'') of Inl e \<Rightarrow> Inl e | Inr u \<Rightarrow> Inr c'')))"
    using Inr assms loop
    by (simp add: sync_def ctx_refresh_credentials_def ctx_write_state_def call_def pure_io_def ret_def
          bind_io_pair Let_def split: sum.splits)
  show ?thesis
  proof (cases r)
    case (Inl e)
    with eq pre show ?thesis by simp
  next
    case (Inr c')
    with eq full[OF Inr] show ?thesis by (simp add: Let_def)
  qed
qed

lemma index_unknown: "v \<notin> JStr ` set ids \<Longrightarrow> index ids v = Inl ValueError"
  by (induction ids) auto

lemma index_known: "k \<in> set ids \<Longrightarrow> \<exists>i. index ids (JStr k) = Inr i"
  by (induction ids) auto

lemma index_error: "index ids v = Inl e \<Longrightarrow> e = ValueError \<and> v \<notin> JStr ` set ids"
  by (induction ids) (auto split: if_splits sum.splits simp: map_sum_def)

lemmas run_defs =
  sync_def ctx_refresh_credentials_def ctx_write_state_def load_and_write_schema_def
  call_def pure_io_def ret_def bind_io_pair start_idx_def streams_to_sync_def
  stream_ids_to_sync_def get_abs_path_def os_path_join_def

lemmas demo_defs = demo_env_def demo_ctx_def demo_entry_def demo_stream_def

section \<open>An unknown resume marker\<close>

text \<open>
  Claim C1, as amended. When \<^verbatim>\<open>currently_syncing\<close> holds a truthy value that is not one of
  the declared stream ids, \<^verbatim>\<open>sync\<close> refreshes the credentials and then fails in
  \<^verbatim>\<open>list.index\<close>: the only event is the refresh, so no checkpoint is written, no schema
  is emitted and no extraction procedure is called. The exception is the refresh's own
  when the refresh fails, and otherwise the \<^verbatim>\<open>ValueError\<close> of \<^verbatim>\<open>list.index\<close>; the module
  has no exception class for an invalid resume state.
\<close>

theorem sync_unknown_marker:
  assumes "map_of (state c) ''currently_syncing'' = Some v"
      and "truthy v"
      and "v \<notin> JStr ` set (all_stream_ids env)"
  shows "sync env c =
           ([RefreshCredentials],
            Inl (case refresh_credentials env (config c) (config_path c) of
                   Inl e \<Rightarrow> e | Inr cfg \<Rightarrow> ValueError))"
  using assms index_unknown[of v "all_stream_ids env"]
  by (simp add: run_defs split: sum.splits)

text \<open>
  The scenario of the specification, \<^verbatim>\<open>currently_syncing = "nonexistent_stream"\<close>: the
  run ends with \<^verbatim>\<open>ValueError\<close>, which is not an \<^verbatim>\<open>InvalidResumeStateError\<close>.
\<close>

theorem sync_unknown_marker_counterexample:
  "sync demo_env (demo_ctx (JStr ''nonexistent_stream'') [demo_entry ''contacts'' True])
     = ([RefreshCredentials], Inl ValueError)
   \<and> snd (sync demo_env (demo_ctx (JStr ''nonexistent_stream'') [demo_entry ''contacts'' True]))
     \<noteq> Inl (Raised ''InvalidResumeStateError'')"
  by (simp add: run_defs demo_defs)

text \<open>The amended claim at the same scenario.\<close>

theorem sync_unknown_marker_witness:
  "map_of (state (demo_ctx (JStr ''nonexistent_stream'') [demo_entry ''contacts'' True])) ''currently_syncing''
     = Some (JStr ''nonexistent_stream'')
   \<and> truthy (JStr ''nonexistent_stream'')
   \<and> JStr ''nonexistent_stream'' \<notin> JStr ` set (all_stream_ids demo_env)
   \<and> sync demo_env (demo_ctx (JStr ''nonexistent_stream'') [demo_entry ''contacts'' True])
     = ([RefreshCredentials], Inl ValueError)"
proof -
  let ?c = "demo_ctx (JStr ''nonexistent_stream'') [demo_entry ''contacts'' True]"
  have h1: "map_of (state ?c) ''currently_syncing'' = Some (JStr ''nonexistent_stream'')"
    by (simp add: demo_defs)
  have h2: "truthy (JStr ''nonexistent_stream'')" by simp
  have h3: "JStr ''nonexistent_stream'' \<notin> JStr ` set (all_stream_ids demo_env)"
    by (simp add: demo_defs)
  have "refresh_credentials demo_env (config ?c) (config_path ?c) = Inr []"
    by (simp add: demo_defs)
  with sync_unknown_marker[OF h1 h2 h3] h1 h2 h3 show ?thesis by simp
qed


section \<open>Checkpoint, schema, extraction\<close>

lemma plan_order:
  "k < length (plan ss @ [Cleared]) \<Longrightarrow>
   ((plan ss @ [Cleared]) ! k = Extraction x \<longrightarrow>
      2 \<le> k \<and> (plan ss @ [Cleared]) ! (k - 1) = SchemaEmitted x \<and> (plan ss @ [Cleared]) ! (k - 2) = Checkpoint x)
   \<and> ((plan ss @ [Cleared]) ! k = SchemaEmitted x \<longrightarrow>
      1 \<le> k \<and> (plan ss @ [Cleared]) ! (k - 1) = Checkpoint x)"
proof (induction ss arbitrary: k)
  case Nil
  then show ?case by simp
next
  case (Cons s ss)
  show ?case
  proof (cases "k < 3")
    case True
    then have "k = 0 \<or> k = 1 \<or> k = 2" by arith
    then show ?thesis by auto
  next
    case False
    define m where "m = k - 3"
    with False have k: "k = Suc (Suc (Suc m))" by arith
    with Cons.prems have "m < length (plan ss @ [Cleared])" by simp
    from Cons.IH[OF this] show ?thesis
      unfolding k by (cases m; cases "m - 1") auto
  qed
qed

lemma prefix_nth: "prefix xs ys \<Longrightarrow> k < length xs \<Longrightarrow> xs ! k = ys ! k"
  by (auto simp: prefix_def nth_append)

text \<open>
  Claim C8. When the resume index is found, the scheduler's steps of any run, complete or
  cut short by an exception, are an initial part of the plan for the working list:
  for each stream the checkpoint (the state written with \<^verbatim>\<open>currently_syncing\<close> set to
  the stream's id), then its schema, then its extraction, and the cleared marker last. A
  run that returns has made all the steps. So an extraction is always preceded directly
  by the schema of the same stream and that by its checkpoint.
\<close>

theorem checkpoint_schema_extraction_order:
  assumes "start_idx (all_stream_ids env) (state c) = Inr i"
  shows "prefix (steps (fst (sync env c))) (plan (streams_to_sync env i (catalog c)) @ [Cleared])
     \<and> (\<forall>c'. snd (sync env c) = Inr c' \<longrightarrow>
            steps (fst (sync env c)) = plan (streams_to_sync env i (catalog c)) @ [Cleared])
     \<and> (\<forall>k x. k < length (steps (fst (sync env c))) \<and> steps (fst (sync env c)) ! k = Extraction x \<longrightarrow>
            2 \<le> k \<and> steps (fst (sync env c)) ! (k - 1) = SchemaEmitted x
                  \<and> steps (fst (sync env c)) ! (k - 2) = Checkpoint x)
     \<and> (\<forall>k x. k < length (steps (fst (sync env c))) \<and> steps (fst (sync env c)) ! k = SchemaEmitted x \<longrightarrow>
            1 \<le> k \<and> steps (fst (sync env c)) ! (k - 1) = Checkpoint x)"
proof -
  let ?st = "steps (fst (sync env c))"
  let ?P = "plan (streams_to_sync env i (catalog c)) @ [Cleared]"
  from sync_steps[OF assms]
  have pre: "prefix ?st ?P" and full: "\<forall>c'. snd (sync env c) = Inr c' \<longrightarrow> ?st = ?P"
    by simp_all
  have nth: "\<And>k. k < length ?st \<Longrightarrow> ?st ! k = ?P ! k \<and> k < length ?P"
    using pre prefix_nth[OF pre] prefix_length_le[OF pre] by auto
  have ext: "\<And>k x. k < length ?st \<Longrightarrow> ?st ! k = Extraction x \<Longrightarrow>
               2 \<le> k \<and> ?st ! (k - 1) = SchemaEmitted x \<and> ?st ! (k - 2) = Checkpoint x"
  proof -
    fix k x assume k: "k < length ?st" and e: "?st ! k = Extraction x"
    from nth[OF k] e have "?P ! k = Extraction x" "k < length ?P" by simp_all
    with plan_order[of k "streams_to_sync env i (catalog c)" x]
    have "2 \<le> k" "?P ! (k - 1) = SchemaEmitted x" "?P ! (k - 2) = Checkpoint x" by simp_all
    moreover have "k - 1 < length ?st" "k - 2 < length ?st" using k by arith+
    ultimately show "2 \<le> k \<and> ?st ! (k - 1) = SchemaEmitted x \<and> ?st ! (k - 2) = Checkpoint x"
      using nth by simp
  qed
  have sch: "\<And>k x. k < length ?st \<Longrightarrow> ?st ! k = SchemaEmitted x \<Longrightarrow>
               1 \<le> k \<and> ?st ! (k - 1) = Checkpoint x"
  proof -
    fix k x assume k: "k < length ?st" and e: "?st ! k = SchemaEmitted x"
    from nth[OF k] e have "?P ! k = SchemaEmitted x" "k < length ?P" by simp_all
    with plan_order[of k "streams_to_sync env i (catalog c)" x]
    have "1 \<le> k" "?P ! (k - 1) = Checkpoint x" by simp_all
    moreover have "k - 1 < length ?st" using k by arith
    ultimately show "1 \<le> k \<and> ?st ! (k - 1) = Checkpoint x"
      using nth by simp
  qed
  from pre full ext sch show ?thesis by blast
qed

lemma index_split:
  "index (map f xs) (JStr k) = Inr i \<Longrightarrow>
     drop i xs = dropWhile (\<lambda>s. f s \<noteq> k) xs \<and> take i xs = takeWhile (\<lambda>s. f s \<noteq> k) xs"
proof (induction xs arbitrary: i)
  case Nil
  then show ?case by simp
next
  case (Cons x xs)
  show ?case
  proof (cases "f x = k")
    case True
    with Cons.prems show ?thesis by simp
  next
    case False
    with Cons.prems obtain j where j: "index (map f xs) (JStr k) = Inr j" and i: "i = Suc j"
      by (cases "index (map f xs) (JStr k)") auto
    from Cons.IH[OF j] i False show ?thesis by simp
  qed
qed

lemma set_plan:
  "x \<in> set (plan ss) \<Longrightarrow>
     \<exists>s \<in> set ss. x = Checkpoint (tap_stream_id s) \<or> x = SchemaEmitted (tap_stream_id s)
                 \<or> x = Extraction (tap_stream_id s)"
  by (induction ss) auto

lemma sync_completed:
  assumes "sync env c = (tr, Inr c')"
  shows "tr \<noteq> [] \<and> last tr = WriteState (state c') \<and> write_state env (state c') = Inr ()
         \<and> map_of (state c') ''currently_syncing'' = Some JNull"
  using assms
  by (auto simp: sync_def bind_io_def ctx_refresh_credentials_def ctx_write_state_def call_def
        pure_io_def ret_def Let_def split: sum.splits prod.splits)

lemma start_idx_cleared:
  "map_of st ''currently_syncing'' \<in> {None, Some JNull, Some (JStr [])} \<Longrightarrow> start_idx ids st = Inr 0"
  by (auto simp: start_idx_def)

lemma streams_to_sync_0:
  "streams_to_sync env 0 cat =
     filter (\<lambda>s. tap_stream_id s \<in> set (stream_ids_to_sync env cat)) (all_streams env)"
  by (simp add: streams_to_sync_def)

lemma demo_run_fresh:
  "sync demo_env (demo_ctx JNull demo_catalog) =
     ([RefreshCredentials,
       WriteState [(''currently_syncing'', JStr ''contacts'')],
       WriteSchema ''contacts'' (JObj [(''properties'', JObj [])]) [''id''],
       LogInfo ''Syncing stream: contacts'', StreamSync ''contacts'',
       WriteState [(''currently_syncing'', JStr ''invoices'')],
       WriteSchema ''invoices'' (JObj [(''properties'', JObj [])]) [''id''],
       LogInfo ''Syncing stream: invoices'', StreamSync ''invoices'',
       WriteState [(''currently_syncing'', JNull)]],
      Inr (demo_ctx JNull demo_catalog))"
  by code_simp

lemma demo_run_reordered:
  "sync demo_env (demo_ctx JNull demo_catalog_reordered) =
     ([RefreshCredentials,
       WriteState [(''currently_syncing'', JStr ''contacts'')],
       WriteSchema ''contacts'' (JObj [(''properties'', JObj [])]) [''id''],
       LogInfo ''Syncing stream: contacts'', StreamSync ''contacts'',
       WriteState [(''currently_syncing'', JStr ''invoices'')],
       WriteSchema ''invoices'' (JObj [(''properties'', JObj [])]) [''id''],
       LogInfo ''Syncing stream: invoices'', StreamSync ''invoices'',
       WriteState [(''currently_syncing'', JNull)]],
      Inr (demo_ctx JNull demo_catalog_reordered))"
  by code_simp

lemma demo_run_resumed:
  "sync demo_env (demo_ctx (JStr ''invoices'') demo_catalog) =
     ([RefreshCredentials,
       WriteState [(''currently_syncing'', JStr ''invoices'')],
       WriteSchema ''invoices'' (JObj [(''properties'', JObj [])]) [''id''],
       LogInfo ''Syncing stream: invoices'', StreamSync ''invoices'',
       WriteState [(''currently_syncing'', JNull)]],
      Inr (demo_ctx JNull demo_catalog))"
  by code_simp

lemma demo_ids:
  "all_stream_ids demo_env = map tap_stream_id (all_streams demo_env)"
  "distinct (all_stream_ids demo_env)"
  "''invoices'' \<in> set (all_stream_ids demo_env)"
  by (simp_all add: demo_defs)

text \<open>The run of the example scenario, with its hypotheses.\<close>

theorem checkpoint_schema_extraction_order_witness:
  "start_idx (all_stream_ids demo_env) (state (demo_ctx JNull demo_catalog)) = Inr 0
   \<and> snd (sync demo_env (demo_ctx JNull demo_catalog)) = Inr (demo_ctx JNull demo_catalog)
   \<and> steps (fst (sync demo_env (demo_ctx JNull demo_catalog))) =
       [Checkpoint ''contacts'', SchemaEmitted ''contacts'', Extraction ''contacts'',
        Checkpoint ''invoices'', SchemaEmitted ''invoices'', Extraction ''invoices'', Cleared]
   \<and> 5 < length (steps (fst (sync demo_env (demo_ctx JNull demo_catalog))))
   \<and> steps (fst (sync demo_env (demo_ctx JNull demo_catalog))) ! 5 = Extraction ''invoices''
   \<and> steps (fst (sync demo_env (demo_ctx JNull demo_catalog))) ! 4 = SchemaEmitted ''invoices''
   \<and> steps (fst (sync demo_env (demo_ctx JNull demo_catalog))) ! 3 = Checkpoint ''invoices''"
proof -
  have h: "start_idx (all_stream_ids demo_env) (state (demo_ctx JNull demo_catalog)) = Inr 0"
    by (simp add: start_idx_def demo_defs)
  from checkpoint_schema_extraction_order[OF h] h demo_run_fresh
  show ?thesis by simp
qed

section \<open>Resuming from the marker\<close>

lemma selected_iff:
  "(tap_stream_id s \<in> set (stream_ids_to_sync env cat))
     = (\<exists>cs \<in> set cat. is_selected env cs \<and> cs_tap_stream_id cs = tap_stream_id s)"
  by (auto simp: stream_ids_to_sync_def intro: rev_image_eqI)

lemma demo_run_partial:
  "sync demo_env (demo_ctx (JStr ''contacts'') demo_catalog_partial) =
     ([RefreshCredentials,
       WriteState [(''currently_syncing'', JStr ''contacts'')],
       WriteSchema ''contacts'' (JObj [(''properties'', JObj [])]) [''id''],
       LogInfo ''Syncing stream: contacts'', StreamSync ''contacts'',
       WriteState [(''currently_syncing'', JNull)]],
      Inr (demo_ctx JNull demo_catalog_partial))"
  by code_simp

lemma demo_run_empty_id:
  "sync demo_env_empty_id (demo_ctx (JStr []) demo_catalog_empty_id) =
     ([RefreshCredentials,
       WriteState [(''currently_syncing'', JStr ''contacts'')],
       WriteSchema ''contacts'' (JObj [(''properties'', JObj [])]) [''id''],
       LogInfo ''Syncing stream: contacts'', StreamSync ''contacts'',
       WriteState [(''currently_syncing'', JStr [])],
       WriteSchema [] (JObj [(''properties'', JObj [])]) [''id''],
       LogInfo ''Syncing stream: '', StreamSync [],
       WriteState [(''currently_syncing'', JNull)]],
      Inr (demo_ctx JNull demo_catalog_empty_id))"
  by code_simp

text \<open>
  Claim C2, as amended. Let the declared stream ids be the ids of the declared streams,
  all different, and let \<^verbatim>\<open>currently_syncing\<close> be the id \<open>k\<close> of a declared stream, not
  the empty string. A stream is selected when an entry of the catalog with its id
  answers \<^verbatim>\<open>is_selected()\<close> with a true value. Then the working list is the declared
  order from the stream \<open>k\<close> onward, \<open>k\<close> included, restricted to the selected streams:
  the steps of every run are an initial part of its plan, a run that returns has made
  exactly the plan's steps, and no step at all (checkpoint, schema or extraction) is
  made for a stream declared before \<open>k\<close>, selected or not.
\<close>

theorem resume_from_marker:
  assumes ids: "all_stream_ids env = map tap_stream_id (all_streams env)"
      and dist: "distinct (all_stream_ids env)"
      and cur: "map_of (state c) ''currently_syncing'' = Some (JStr k)"
      and ne: "k \<noteq> []"
      and known: "k \<in> set (all_stream_ids env)"
  shows "dropWhile (\<lambda>s. tap_stream_id s \<noteq> k) (all_streams env) \<noteq> []
     \<and> tap_stream_id (hd (dropWhile (\<lambda>s. tap_stream_id s \<noteq> k) (all_streams env))) = k
     \<and> prefix (steps (fst (sync env c)))
         (plan (filter (\<lambda>s. \<exists>cs \<in> set (catalog c). is_selected env cs
                                \<and> cs_tap_stream_id cs = tap_stream_id s)
                  (dropWhile (\<lambda>s. tap_stream_id s \<noteq> k) (all_streams env))) @ [Cleared])
     \<and> (\<forall>c'. snd (sync env c) = Inr c' \<longrightarrow>
           steps (fst (sync env c)) =
             plan (filter (\<lambda>s. \<exists>cs \<in> set (catalog c). is_selected env cs
                                  \<and> cs_tap_stream_id cs = tap_stream_id s)
                     (dropWhile (\<lambda>s. tap_stream_id s \<noteq> k) (all_streams env))) @ [Cleared])
     \<and> (\<forall>s \<in> set (takeWhile (\<lambda>s. tap_stream_id s \<noteq> k) (all_streams env)).
           Checkpoint (tap_stream_id s) \<notin> set (steps (fst (sync env c)))
         \<and> SchemaEmitted (tap_stream_id s) \<notin> set (steps (fst (sync env c)))
         \<and> Extraction (tap_stream_id s) \<notin> set (steps (fst (sync env c))))"
proof -
  let ?all = "all_streams env"
  let ?on = "dropWhile (\<lambda>s. tap_stream_id s \<noteq> k) ?all"
  let ?before = "takeWhile (\<lambda>s. tap_stream_id s \<noteq> k) ?all"
  let ?ws = "filter (\<lambda>s. \<exists>cs \<in> set (catalog c). is_selected env cs
                              \<and> cs_tap_stream_id cs = tap_stream_id s) ?on"
  let ?st = "steps (fst (sync env c))"
  from known ids obtain i where i: "index (map tap_stream_id ?all) (JStr k) = Inr i"
    using index_known[of k "map tap_stream_id ?all"] by auto
  with cur ne ids have idx: "start_idx (all_stream_ids env) (state c) = Inr i"
    by (simp add: start_idx_def)
  from index_split[OF i] have ws: "streams_to_sync env i (catalog c) = ?ws"
    by (simp add: streams_to_sync_def selected_iff)
  from known ids have nonempty: "?on \<noteq> []"
    by (auto simp: dropWhile_eq_Nil_conv)
  then have hd: "tap_stream_id (hd ?on) = k"
    using hd_dropWhile[of "\<lambda>s. tap_stream_id s \<noteq> k" ?all] by simp
  from sync_steps[OF idx] ws
  have pre: "prefix ?st (plan ?ws @ [Cleared])"
    and full: "\<forall>c'. snd (sync env c) = Inr c' \<longrightarrow> ?st = plan ?ws @ [Cleared]"
    by simp_all
  have split: "map tap_stream_id ?before @ map tap_stream_id ?on = map tap_stream_id ?all"
    by (simp flip: map_append)
  with dist ids have disj: "set (map tap_stream_id ?before) \<inter> set (map tap_stream_id ?on) = {}"
    using distinct_append[of "map tap_stream_id ?before" "map tap_stream_id ?on"] by simp
  have none: "\<forall>s \<in> set ?before.
           Checkpoint (tap_stream_id s) \<notin> set ?st
         \<and> SchemaEmitted (tap_stream_id s) \<notin> set ?st
         \<and> Extraction (tap_stream_id s) \<notin> set ?st"
  proof
    fix s assume s: "s \<in> set ?before"
    { fix x assume x: "x \<in> set ?st"
        and kind: "x = Checkpoint (tap_stream_id s) \<or> x = SchemaEmitted (tap_stream_id s)
                   \<or> x = Extraction (tap_stream_id s)"
      from x set_mono_prefix[OF pre] have "x \<in> set (plan ?ws) \<or> x = Cleared" by auto
      with kind have "x \<in> set (plan ?ws)" by auto
      from set_plan[OF this] obtain s' where s'in: "s' \<in> set ?ws"
        and kind': "x = Checkpoint (tap_stream_id s') \<or> x = SchemaEmitted (tap_stream_id s')
                    \<or> x = Extraction (tap_stream_id s')"
        by blast
      from kind kind' have same: "tap_stream_id s' = tap_stream_id s" by auto
      have "set ?ws \<subseteq> set ?on" by (rule filter_is_subset)
      with s'in have "s' \<in> set ?on" by blast
      then have "tap_stream_id s' \<in> tap_stream_id ` set ?on" by (rule imageI)
      with same have "tap_stream_id s \<in> set (map tap_stream_id ?on)" by simp
      moreover from s have "tap_stream_id s \<in> set (map tap_stream_id ?before)"
        by (simp only: set_map) (rule imageI)
      ultimately have False using disj by blast }
    then show "Checkpoint (tap_stream_id s) \<notin> set ?st
         \<and> SchemaEmitted (tap_stream_id s) \<notin> set ?st
         \<and> Extraction (tap_stream_id s) \<notin> set ?st" by blast
  qed
  from nonempty hd pre full none show ?thesis by blast
qed

text \<open>
  A declared stream with the empty id: the marker holds that id, and the run starts from
  the top all the same, so the stream declared before it is processed again.
\<close>

theorem resume_from_marker_counterexample:
  "all_stream_ids demo_env_empty_id = [''contacts'', []]
   \<and> map tap_stream_id (all_streams demo_env_empty_id) = [''contacts'', []]
   \<and> map_of (state (demo_ctx (JStr []) demo_catalog_empty_id)) ''currently_syncing'' = Some (JStr [])
   \<and> steps (fst (sync demo_env_empty_id (demo_ctx (JStr []) demo_catalog_empty_id))) =
       [Checkpoint ''contacts'', SchemaEmitted ''contacts'', Extraction ''contacts'',
        Checkpoint [], SchemaEmitted [], Extraction [], Cleared]
   \<and> Extraction ''contacts''
       \<in> set (steps (fst (sync demo_env_empty_id (demo_ctx (JStr []) demo_catalog_empty_id))))"
  by (simp add: demo_run_empty_id) (simp add: demo_env_empty_id_def demo_ctx_def demo_stream_def)

text \<open>
  The marker is contacts; bank transactions and contacts are selected, invoices is not.
  Only contacts is processed: not the selected stream declared before the marker, and not
  the stream after it that is not selected.
\<close>

theorem resume_from_marker_witness:
  "all_stream_ids demo_env = map tap_stream_id (all_streams demo_env)
   \<and> distinct (all_stream_ids demo_env)
   \<and> map_of (state (demo_ctx (JStr ''contacts'') demo_catalog_partial)) ''currently_syncing''
       = Some (JStr ''contacts'')
   \<and> ''contacts'' \<noteq> []
   \<and> ''contacts'' \<in> set (all_stream_ids demo_env)
   \<and> snd (sync demo_env (demo_ctx (JStr ''contacts'') demo_catalog_partial))
       = Inr (demo_ctx JNull demo_catalog_partial)
   \<and> steps (fst (sync demo_env (demo_ctx (JStr ''contacts'') demo_catalog_partial))) =
       plan (filter (\<lambda>s. \<exists>cs \<in> set (catalog (demo_ctx (JStr ''contacts'') demo_catalog_partial)).
                            is_selected demo_env cs \<and> cs_tap_stream_id cs = tap_stream_id s)
               (dropWhile (\<lambda>s. tap_stream_id s \<noteq> ''contacts'') (all_streams demo_env))) @ [Cleared]
   \<and> steps (fst (sync demo_env (demo_ctx (JStr ''contacts'') demo_catalog_partial))) =
       [Checkpoint ''contacts'', SchemaEmitted ''contacts'', Extraction ''contacts'', Cleared]
   \<and> demo_stream ''bank_transactions''
       \<in> set (takeWhile (\<lambda>s. tap_stream_id s \<noteq> ''contacts'') (all_streams demo_env))
   \<and> Extraction (tap_stream_id (demo_stream ''bank_transactions''))
       \<notin> set (steps (fst (sync demo_env (demo_ctx (JStr ''contacts'') demo_catalog_partial))))"
proof -
  let ?c = "demo_ctx (JStr ''contacts'') demo_catalog_partial"
  have ids: "all_stream_ids demo_env = map tap_stream_id (all_streams demo_env)"
    and dist: "distinct (all_stream_ids demo_env)"
    and known: "''contacts'' \<in> set (all_stream_ids demo_env)"
    by (simp_all add: demo_defs)
  have cur: "map_of (state ?c) ''currently_syncing'' = Some (JStr ''contacts'')"
    by (simp add: demo_ctx_def)
  have ne: "''contacts'' \<noteq> []" by simp
  have earlier: "demo_stream ''bank_transactions''
       \<in> set (takeWhile (\<lambda>s. tap_stream_id s \<noteq> ''contacts'') (all_streams demo_env))"
    by (simp add: demo_defs)
  have ret: "snd (sync demo_env ?c) = Inr (demo_ctx JNull demo_catalog_partial)"
    by (simp add: demo_run_partial)
  note T = resume_from_marker[OF ids dist cur ne known]
  from T ret have plan: "steps (fst (sync demo_env ?c)) =
       plan (filter (\<lambda>s. \<exists>cs \<in> set (catalog ?c). is_selected demo_env cs
                            \<and> cs_tap_stream_id cs = tap_stream_id s)
               (dropWhile (\<lambda>s. tap_stream_id s \<noteq> ''contacts'') (all_streams demo_env))) @ [Cleared]"
    by blast
  from T earlier
  have none: "Extraction (tap_stream_id (demo_stream ''bank_transactions''))
       \<notin> set (steps (fst (sync demo_env ?c)))"
    by blast
  have run: "steps (fst (sync demo_env ?c)) =
       [Checkpoint ''contacts'', SchemaEmitted ''contacts'', Extraction ''contacts'', Cleared]"
    by (simp add: demo_run_partial)
  from ids dist cur ne known ret plan run earlier none show ?thesis by blast
qed

section \<open>The order of the selection does not matter\<close>

text \<open>
  Claim C6. Two contexts with the same state whose catalogs select the same set of stream
  ids, in any order and with any other entries, have the same working list; it is a
  subsequence of the declared streams, so it is in declared order; the steps of both
  runs are initial parts of its plan, and each run that returns has made exactly the
  plan's steps.
\<close>

theorem selection_order_irrelevant:
  assumes sel: "set (stream_ids_to_sync env (catalog c1)) = set (stream_ids_to_sync env (catalog c2))"
      and st: "state c1 = state c2"
      and idx: "start_idx (all_stream_ids env) (state c1) = Inr i"
  shows "streams_to_sync env i (catalog c1) = streams_to_sync env i (catalog c2)
     \<and> subseq (streams_to_sync env i (catalog c1)) (all_streams env)
     \<and> prefix (steps (fst (sync env c1))) (plan (streams_to_sync env i (catalog c1)) @ [Cleared])
     \<and> prefix (steps (fst (sync env c2))) (plan (streams_to_sync env i (catalog c1)) @ [Cleared])
     \<and> (\<forall>d1. snd (sync env c1) = Inr d1 \<longrightarrow>
            steps (fst (sync env c1)) = plan (streams_to_sync env i (catalog c1)) @ [Cleared])
     \<and> (\<forall>d2. snd (sync env c2) = Inr d2 \<longrightarrow>
            steps (fst (sync env c2)) = plan (streams_to_sync env i (catalog c1)) @ [Cleared])"
proof -
  from sel have same: "streams_to_sync env i (catalog c1) = streams_to_sync env i (catalog c2)"
    by (simp add: streams_to_sync_def)
  have "subseq (drop i (all_streams env)) (all_streams env)"
    using suffix_drop[of i "all_streams env"] by (rule suffix_imp_subseq)
  then have sub: "subseq (streams_to_sync env i (catalog c1)) (all_streams env)"
    unfolding streams_to_sync_def
    using subseq_filter_left subseq_order.order_trans by blast
  from idx st have idx2: "start_idx (all_stream_ids env) (state c2) = Inr i" by simp
  from sync_steps[OF idx] sync_steps[OF idx2] same sub show ?thesis by simp
qed

text \<open>Selecting invoices before contacts still runs contacts first.\<close>

theorem selection_order_irrelevant_witness:
  "set (stream_ids_to_sync demo_env (catalog (demo_ctx JNull demo_catalog_reordered)))
     = set (stream_ids_to_sync demo_env (catalog (demo_ctx JNull demo_catalog)))
   \<and> state (demo_ctx JNull demo_catalog_reordered) = state (demo_ctx JNull demo_catalog)
   \<and> start_idx (all_stream_ids demo_env) (state (demo_ctx JNull demo_catalog_reordered)) = Inr 0
   \<and> stream_ids_to_sync demo_env demo_catalog_reordered = [''invoices'', ''contacts'']
   \<and> snd (sync demo_env (demo_ctx JNull demo_catalog_reordered)) = Inr (demo_ctx JNull demo_catalog_reordered)
   \<and> snd (sync demo_env (demo_ctx JNull demo_catalog)) = Inr (demo_ctx JNull demo_catalog)
   \<and> steps (fst (sync demo_env (demo_ctx JNull demo_catalog_reordered)))
       = plan (streams_to_sync demo_env 0 (catalog (demo_ctx JNull demo_catalog_reordered))) @ [Cleared]
   \<and> steps (fst (sync demo_env (demo_ctx JNull demo_catalog)))
       = plan (streams_to_sync demo_env 0 (catalog (demo_ctx JNull demo_catalog_reordered))) @ [Cleared]
   \<and> steps (fst (sync demo_env (demo_ctx JNull demo_catalog_reordered))) =
       [Checkpoint ''contacts'', SchemaEmitted ''contacts'', Extraction ''contacts'',
        Checkpoint ''invoices'', SchemaEmitted ''invoices'', Extraction ''invoices'', Cleared]"
proof -
  have sel: "set (stream_ids_to_sync demo_env (catalog (demo_ctx JNull demo_catalog_reordered)))
     = set (stream_ids_to_sync demo_env (catalog (demo_ctx JNull demo_catalog)))"
    by (auto simp: stream_ids_to_sync_def demo_defs demo_catalog_def demo_catalog_reordered_def)
  have ids: "stream_ids_to_sync demo_env demo_catalog_reordered = [''invoices'', ''contacts'']"
    by (simp add: stream_ids_to_sync_def demo_defs demo_catalog_reordered_def)
  have st: "state (demo_ctx JNull demo_catalog_reordered) = state (demo_ctx JNull demo_catalog)"
    by (simp add: demo_ctx_def)
  have idx: "start_idx (all_stream_ids demo_env) (state (demo_ctx JNull demo_catalog_reordered)) = Inr 0"
    by (simp add: start_idx_def demo_ctx_def)
  from selection_order_irrelevant[OF sel st idx] demo_run_reordered demo_run_fresh
  have "steps (fst (sync demo_env (demo_ctx JNull demo_catalog_reordered)))
       = plan (streams_to_sync demo_env 0 (catalog (demo_ctx JNull demo_catalog_reordered))) @ [Cleared]"
   and "steps (fst (sync demo_env (demo_ctx JNull demo_catalog)))
       = plan (streams_to_sync demo_env 0 (catalog (demo_ctx JNull demo_catalog_reordered))) @ [Cleared]"
    by simp_all
  moreover have "steps (fst (sync demo_env (demo_ctx JNull demo_catalog_reordered))) =
       [Checkpoint ''contacts'', SchemaEmitted ''contacts'', Extraction ''contacts'',
        Checkpoint ''invoices'', SchemaEmitted ''invoices'', Extraction ''invoices'', Cleared]"
    by (simp add: demo_run_reordered)
  ultimately show ?thesis
    using sel st idx ids demo_run_reordered demo_run_fresh by simp
qed

section \<open>A completed run clears the marker\<close>

text \<open>
  Claim C7. A run of \<^verbatim>\<open>sync\<close> that returns ends with the state written to the sink,
  in which \<^verbatim>\<open>currently_syncing\<close> is \<^verbatim>\<open>None\<close>. On that state the resume index is 0: the
  next run works through the plan of all declared streams that are selected, from the
  first one, and makes exactly those steps when it returns.
\<close>

theorem completed_run_restarts_from_top:
  assumes run: "sync env c = (tr, Inr c')"
  shows "tr \<noteq> [] \<and> last tr = WriteState (state c')
     \<and> map_of (state c') ''currently_syncing'' = Some JNull
     \<and> start_idx (all_stream_ids env) (state c') = Inr 0
     \<and> prefix (steps (fst (sync env c')))
         (plan (filter (\<lambda>s. tap_stream_id s \<in> set (stream_ids_to_sync env (catalog c')))
                  (all_streams env)) @ [Cleared])
     \<and> (\<forall>c''. snd (sync env c') = Inr c'' \<longrightarrow>
           steps (fst (sync env c')) =
             plan (filter (\<lambda>s. tap_stream_id s \<in> set (stream_ids_to_sync env (catalog c')))
                     (all_streams env)) @ [Cleared])"
proof -
  from sync_completed[OF run]
  have fin: "tr \<noteq> []" "last tr = WriteState (state c')"
    and cleared: "map_of (state c') ''currently_syncing'' = Some JNull"
    by simp_all
  from cleared have idx: "start_idx (all_stream_ids env) (state c') = Inr 0"
    by (simp add: start_idx_cleared)
  from sync_steps[OF idx] fin cleared idx show ?thesis
    by (simp add: streams_to_sync_0)
qed

text \<open>The resumed run of the example, and the run that follows it.\<close>

theorem completed_run_restarts_from_top_witness:
  "snd (sync demo_env (demo_ctx (JStr ''invoices'') demo_catalog)) = Inr (demo_ctx JNull demo_catalog)
   \<and> last (fst (sync demo_env (demo_ctx (JStr ''invoices'') demo_catalog)))
       = WriteState [(''currently_syncing'', JNull)]
   \<and> start_idx (all_stream_ids demo_env) (state (demo_ctx JNull demo_catalog)) = Inr 0
   \<and> snd (sync demo_env (demo_ctx JNull demo_catalog)) = Inr (demo_ctx JNull demo_catalog)
   \<and> steps (fst (sync demo_env (demo_ctx JNull demo_catalog))) =
       plan (filter (\<lambda>s. tap_stream_id s \<in> set (stream_ids_to_sync demo_env (catalog (demo_ctx JNull demo_catalog))))
               (all_streams demo_env)) @ [Cleared]
   \<and> steps (fst (sync demo_env (demo_ctx JNull demo_catalog))) =
       [Checkpoint ''contacts'', SchemaEmitted ''contacts'', Extraction ''contacts'',
        Checkpoint ''invoices'', SchemaEmitted ''invoices'', Extraction ''invoices'', Cleared]"
proof -
  have run: "sync demo_env (demo_ctx (JStr ''invoices'') demo_catalog)
      = (fst (sync demo_env (demo_ctx (JStr ''invoices'') demo_catalog)), Inr (demo_ctx JNull demo_catalog))"
    by (simp add: demo_run_resumed)
  from completed_run_restarts_from_top[OF run] demo_run_fresh
  have "steps (fst (sync demo_env (demo_ctx JNull demo_catalog))) =
       plan (filter (\<lambda>s. tap_stream_id s \<in> set (stream_ids_to_sync demo_env (catalog (demo_ctx JNull demo_catalog))))
               (all_streams demo_env)) @ [Cleared]"
    and "start_idx (all_stream_ids demo_env) (state (demo_ctx JNull demo_catalog)) = Inr 0"
    by simp_all
  then show ?thesis
    using demo_run_resumed demo_run_fresh by (simp add: demo_ctx_def)
qed

section \<open>No marker, fresh start\<close>

text \<open>
  Claim C10. When \<^verbatim>\<open>currently_syncing\<close> is absent, \<^verbatim>\<open>None\<close> or the empty string, the
  resume index is 0 without any lookup, and the run works through the plan of all
  declared streams that are selected. For any list of ids and any state, the resume
  index fails only with the \<^verbatim>\<open>ValueError\<close> of the lookup, and only for a truthy value
  that is none of the ids.
\<close>

theorem fresh_start_without_marker:
  assumes "map_of (state c) ''currently_syncing'' \<in> {None, Some JNull, Some (JStr [])}"
  shows "start_idx (all_stream_ids env) (state c) = Inr 0
     \<and> prefix (steps (fst (sync env c)))
         (plan (filter (\<lambda>s. tap_stream_id s \<in> set (stream_ids_to_sync env (catalog c)))
                  (all_streams env)) @ [Cleared])
     \<and> (\<forall>c'. snd (sync env c) = Inr c' \<longrightarrow>
           steps (fst (sync env c)) =
             plan (filter (\<lambda>s. tap_stream_id s \<in> set (stream_ids_to_sync env (catalog c)))
                     (all_streams env)) @ [Cleared])
     \<and> (start_idx ids st = Inl e \<longrightarrow>
           e = ValueError
           \<and> (\<exists>v. map_of st ''currently_syncing'' = Some v \<and> truthy v \<and> v \<notin> JStr ` set ids))"
proof -
  from assms have idx: "start_idx (all_stream_ids env) (state c) = Inr 0"
    by (rule start_idx_cleared)
  have only: "start_idx ids st = Inl e \<longrightarrow>
           e = ValueError
           \<and> (\<exists>v. map_of st ''currently_syncing'' = Some v \<and> truthy v \<and> v \<notin> JStr ` set ids)"
    using index_error[of ids _ e]
    by (auto simp: start_idx_def Let_def split: option.splits if_splits)
  from sync_steps[OF idx] idx only show ?thesis
    by (simp add: streams_to_sync_0)
qed

text \<open>A state with the marker cleared, and a state with an unknown marker.\<close>

theorem fresh_start_without_marker_witness:
  "map_of (state (demo_ctx JNull demo_catalog)) ''currently_syncing'' \<in> {None, Some JNull, Some (JStr [])}
   \<and> start_idx (all_stream_ids demo_env) (state (demo_ctx JNull demo_catalog)) = Inr 0
   \<and> snd (sync demo_env (demo_ctx JNull demo_catalog)) = Inr (demo_ctx JNull demo_catalog)
   \<and> steps (fst (sync demo_env (demo_ctx JNull demo_catalog))) =
       plan (filter (\<lambda>s. tap_stream_id s \<in> set (stream_ids_to_sync demo_env (catalog (demo_ctx JNull demo_catalog))))
               (all_streams demo_env)) @ [Cleared]
   \<and> start_idx (all_stream_ids demo_env) [(''currently_syncing'', JStr ''nonexistent_stream'')] = Inl ValueError
   \<and> (\<exists>v. map_of [(''currently_syncing'', JStr ''nonexistent_stream'')] ''currently_syncing'' = Some v
          \<and> truthy v \<and> v \<notin> JStr ` set (all_stream_ids demo_env))"
proof -
  have h: "map_of (state (demo_ctx JNull demo_catalog)) ''currently_syncing''
             \<in> {None, Some JNull, Some (JStr [])}"
    by (simp add: demo_ctx_def)
  have bad: "start_idx (all_stream_ids demo_env) [(''currently_syncing'', JStr ''nonexistent_stream'')]
               = Inl ValueError"
    by (simp add: start_idx_def demo_defs)
  from fresh_start_without_marker[OF h, of demo_env "all_stream_ids demo_env"
         "[(''currently_syncing'', JStr ''nonexistent_stream'')]" ValueError] bad demo_run_fresh h
  show ?thesis by simp
qed

section \<open>The metadata that is built\<close>

lemma metadata_get_write:
  "metadata_get (metadata_write m bc k v) bc' k' =
     (if bc' = bc \<and> k' = k then Some v else metadata_get m bc' k')"
  by (auto simp: metadata_get_def metadata_write_def update_conv' split: option.splits)

lemma metadata_get_new [simp]: "metadata_get metadata_new bc k = None"
  by (simp add: metadata_get_def metadata_new_def)

lemma metadata_get_write_inclusion:
  "metadata_get (write_inclusion st f m) bc k =
     (if bc = [''properties'', f] \<and> k = ''inclusion''
      then Some (JStr (if f \<in> set (pk_fields st) \<or> Some f = bookmark_key st
                       then ''automatic'' else ''available''))
      else metadata_get m bc k)"
  by (simp add: write_inclusion_def metadata_get_write)

lemma metadata_get_fold_other:
  "\<forall>f \<in> set fs. \<not> (bc = [''properties'', f] \<and> k = ''inclusion'') \<Longrightarrow>
     metadata_get (fold (write_inclusion st) fs m) bc k = metadata_get m bc k"
proof (induction fs arbitrary: m)
  case Nil
  show ?case by simp
next
  case (Cons g fs)
  from Cons.prems have rest: "\<forall>f \<in> set fs. \<not> (bc = [''properties'', f] \<and> k = ''inclusion'')"
    and g: "\<not> (bc = [''properties'', g] \<and> k = ''inclusion'')"
    by simp_all
  from Cons.IH[OF rest, of "write_inclusion st g m"] g show ?case
    by (simp add: metadata_get_write_inclusion)
qed

lemma metadata_get_fold_field:
  "f \<in> set fs \<Longrightarrow>
     metadata_get (fold (write_inclusion st) fs m) [''properties'', f] ''inclusion'' =
       Some (JStr (if f \<in> set (pk_fields st) \<or> Some f = bookmark_key st
                   then ''automatic'' else ''available''))"
proof (induction fs arbitrary: m)
  case Nil
  then show ?case by simp
next
  case (Cons g fs)
  show ?case
  proof (cases "f \<in> set fs")
    case True
    then show ?thesis using Cons.IH by simp
  next
    case False
    with Cons.prems have g: "g = f" by simp
    from False have "metadata_get (fold (write_inclusion st) fs (write_inclusion st f m))
                       [''properties'', f] ''inclusion''
                   = metadata_get (write_inclusion st f m) [''properties'', f] ''inclusion''"
      by (intro metadata_get_fold_other) auto
    with g show ?thesis by (simp add: metadata_get_write_inclusion)
  qed
qed

text \<open>
  Claim C5. For every stream descriptor and every schema that is a dict whose
  \<^verbatim>\<open>properties\<close> is a dict, \<^verbatim>\<open>load_metadata\<close> returns a metadata list in which
  \<^item> each field of \<^verbatim>\<open>properties\<close> has the inclusion \<^verbatim>\<open>automatic\<close> exactly when it is one of
    \<^verbatim>\<open>pk_fields\<close> or equals \<^verbatim>\<open>bookmark_key\<close>, and \<^verbatim>\<open>available\<close> exactly when it is neither;
  \<^item> the root path carries \<^verbatim>\<open>table-key-properties = pk_fields\<close> and
    \<^verbatim>\<open>forced-replication-method = replication_method\<close>;
  \<^item> the root path carries \<^verbatim>\<open>valid-replication-keys\<close> exactly when \<^verbatim>\<open>bookmark_key\<close> is set,
    that is truthy as line 56 tests it (a string that is not empty), and its value is
    then the list of that one key.
\<close>

theorem load_metadata_rules:
  assumes obj: "schema = JObj kvs"
      and prs: "map_of kvs ''properties'' = Some (JObj props)"
  shows "\<exists>md. load_metadata st schema = Inr md
     \<and> (\<forall>f \<in> set (map fst props).
           (metadata_get md [''properties'', f] ''inclusion'' = Some (JStr ''automatic''))
             = (f \<in> set (pk_fields st) \<or> Some f = bookmark_key st)
         \<and> (metadata_get md [''properties'', f] ''inclusion'' = Some (JStr ''available''))
             = (\<not> (f \<in> set (pk_fields st) \<or> Some f = bookmark_key st)))
     \<and> metadata_get md [] ''table-key-properties'' = Some (JArr (map JStr (pk_fields st)))
     \<and> metadata_get md [] ''forced-replication-method'' = Some (JStr (replication_method st))
     \<and> (metadata_get md [] ''valid-replication-keys'' \<noteq> None)
         = (\<exists>b. bookmark_key st = Some b \<and> b \<noteq> [])
     \<and> (\<forall>b. bookmark_key st = Some b \<and> b \<noteq> [] \<longrightarrow>
           metadata_get md [] ''valid-replication-keys'' = Some (JArr [JStr b]))"
proof -
  define m0 where "m0 =
    (let mdata = metadata_new;
         mdata = metadata_write mdata [] ''table-key-properties'' (JArr (map JStr (pk_fields st)));
         mdata = metadata_write mdata [] ''forced-replication-method'' (JStr (replication_method st))
     in case bookmark_key st of
          Some b \<Rightarrow> if b \<noteq> [] then metadata_write mdata [] ''valid-replication-keys'' (JArr [JStr b])
                    else mdata
        | None \<Rightarrow> mdata)"
  define md where "md = fold (write_inclusion st) (map fst props) m0"
  have res: "load_metadata st schema = Inr md"
    using obj prs by (simp add: load_metadata_def md_def m0_def metadata_to_list_def Let_def)
  have root: "\<And>k. metadata_get md [] k = metadata_get m0 [] k"
    unfolding md_def by (rule metadata_get_fold_other) simp
  have r1: "metadata_get m0 [] ''table-key-properties'' = Some (JArr (map JStr (pk_fields st)))"
    by (simp add: m0_def Let_def metadata_get_write split: option.splits)
  have r2: "metadata_get m0 [] ''forced-replication-method'' = Some (JStr (replication_method st))"
    by (simp add: m0_def Let_def metadata_get_write split: option.splits)
  have r3: "metadata_get m0 [] ''valid-replication-keys'' =
              (case bookmark_key st of
                 Some b \<Rightarrow> if b \<noteq> [] then Some (JArr [JStr b]) else None
               | None \<Rightarrow> None)"
    by (simp add: m0_def Let_def metadata_get_write split: option.splits)
  have fld: "\<And>f. f \<in> set (map fst props) \<Longrightarrow>
        metadata_get md [''properties'', f] ''inclusion'' =
          Some (JStr (if f \<in> set (pk_fields st) \<or> Some f = bookmark_key st
                      then ''automatic'' else ''available''))"
    unfolding md_def by (rule metadata_get_fold_field)
  have incl: "\<forall>f \<in> set (map fst props).
           (metadata_get md [''properties'', f] ''inclusion'' = Some (JStr ''automatic''))
             = (f \<in> set (pk_fields st) \<or> Some f = bookmark_key st)
         \<and> (metadata_get md [''properties'', f] ''inclusion'' = Some (JStr ''available''))
             = (\<not> (f \<in> set (pk_fields st) \<or> Some f = bookmark_key st))"
  proof
    fix f assume "f \<in> set (map fst props)"
    from fld[OF this] show "(metadata_get md [''properties'', f] ''inclusion'' = Some (JStr ''automatic''))
             = (f \<in> set (pk_fields st) \<or> Some f = bookmark_key st)
         \<and> (metadata_get md [''properties'', f] ''inclusion'' = Some (JStr ''available''))
             = (\<not> (f \<in> set (pk_fields st) \<or> Some f = bookmark_key st))"
      by simp
  qed
  have vrk: "(metadata_get md [] ''valid-replication-keys'' \<noteq> None)
         = (\<exists>b. bookmark_key st = Some b \<and> b \<noteq> [])"
    by (simp add: root r3 split: option.splits)
  have vrk2: "\<forall>b. bookmark_key st = Some b \<and> b \<noteq> [] \<longrightarrow>
           metadata_get md [] ''valid-replication-keys'' = Some (JArr [JStr b])"
    by (simp add: root r3)
  from res incl root r1 r2 vrk vrk2 show ?thesis by simp
qed

text \<open>The metadata of the incremental stream, computed and then read through the theorem.\<close>

lemma demo_invoices_metadata:
  "load_metadata demo_invoices demo_invoices_schema =
     Inr [([], [(''table-key-properties'', JArr [JStr ''InvoiceID'']),
                (''forced-replication-method'', JStr ''INCREMENTAL''),
                (''valid-replication-keys'', JArr [JStr ''UpdatedDateUTC''])]),
          ([''properties'', ''InvoiceID''], [(''inclusion'', JStr ''automatic'')]),
          ([''properties'', ''Total''], [(''inclusion'', JStr ''available'')]),
          ([''properties'', ''UpdatedDateUTC''], [(''inclusion'', JStr ''automatic'')])]"
  by code_simp

theorem load_metadata_rules_witness:
  "demo_invoices_schema =
     JObj [(''type'', JArr [JStr ''null'', JStr ''object'']), (''properties'', JObj demo_invoices_properties)]
   \<and> map_of [(''type'', JArr [JStr ''null'', JStr ''object'']), (''properties'', JObj demo_invoices_properties)]
        ''properties'' = Some (JObj demo_invoices_properties)
   \<and> ''Total'' \<in> set (map fst demo_invoices_properties)
   \<and> ''UpdatedDateUTC'' \<in> set (map fst demo_invoices_properties)
   \<and> bookmark_key demo_invoices = Some ''UpdatedDateUTC'' \<and> ''UpdatedDateUTC'' \<noteq> []
   \<and> (\<exists>md. load_metadata demo_invoices demo_invoices_schema = Inr md
         \<and> metadata_get md [''properties'', ''Total''] ''inclusion'' = Some (JStr ''available'')
         \<and> metadata_get md [''properties'', ''UpdatedDateUTC''] ''inclusion'' = Some (JStr ''automatic'')
         \<and> metadata_get md [] ''table-key-properties'' = Some (JArr [JStr ''InvoiceID''])
         \<and> metadata_get md [] ''forced-replication-method'' = Some (JStr ''INCREMENTAL'')
         \<and> metadata_get md [] ''valid-replication-keys'' = Some (JArr [JStr ''UpdatedDateUTC'']))"
proof -
  have obj: "demo_invoices_schema =
     JObj [(''type'', JArr [JStr ''null'', JStr ''object'']), (''properties'', JObj demo_invoices_properties)]"
    by (simp add: demo_invoices_schema_def)
  have prs: "map_of [(''type'', JArr [JStr ''null'', JStr ''object'']), (''properties'', JObj demo_invoices_properties)]
        ''properties'' = Some (JObj demo_invoices_properties)"
    by simp
  have f1: "''Total'' \<in> set (map fst demo_invoices_properties)"
    and f2: "''UpdatedDateUTC'' \<in> set (map fst demo_invoices_properties)"
    by (simp_all add: demo_invoices_properties_def)
  have bk: "bookmark_key demo_invoices = Some ''UpdatedDateUTC''" "''UpdatedDateUTC'' \<noteq> []"
    and pk: "pk_fields demo_invoices = [''InvoiceID'']"
    and rm: "replication_method demo_invoices = ''INCREMENTAL''"
    by (simp_all add: demo_invoices_def)
  from load_metadata_rules[OF obj prs, of demo_invoices]
  obtain md where md: "load_metadata demo_invoices demo_invoices_schema = Inr md"
    and incl: "\<forall>f \<in> set (map fst demo_invoices_properties).
           (metadata_get md [''properties'', f] ''inclusion'' = Some (JStr ''automatic''))
             = (f \<in> set (pk_fields demo_invoices) \<or> Some f = bookmark_key demo_invoices)
         \<and> (metadata_get md [''properties'', f] ''inclusion'' = Some (JStr ''available''))
             = (\<not> (f \<in> set (pk_fields demo_invoices) \<or> Some f = bookmark_key demo_invoices))"
    and root: "metadata_get md [] ''table-key-properties'' = Some (JArr (map JStr (pk_fields demo_invoices)))"
       "metadata_get md [] ''forced-replication-method'' = Some (JStr (replication_method demo_invoices))"
    and vrk: "\<forall>b. bookmark_key demo_invoices = Some b \<and> b \<noteq> [] \<longrightarrow>
           metadata_get md [] ''valid-replication-keys'' = Some (JArr [JStr b])"
    by blast
  from bspec[OF incl f1] pk bk
  have i1: "metadata_get md [''properties'', ''Total''] ''inclusion'' = Some (JStr ''available'')"
    by simp
  from bspec[OF incl f2] pk bk
  have i2: "metadata_get md [''properties'', ''UpdatedDateUTC''] ''inclusion'' = Some (JStr ''automatic'')"
    by simp
  from vrk bk
  have v: "metadata_get md [] ''valid-replication-keys'' = Some (JArr [JStr ''UpdatedDateUTC''])"
    by blast
  from md i1 i2 root v pk rm
  have "\<exists>md. load_metadata demo_invoices demo_invoices_schema = Inr md
         \<and> metadata_get md [''properties'', ''Total''] ''inclusion'' = Some (JStr ''available'')
         \<and> metadata_get md [''properties'', ''UpdatedDateUTC''] ''inclusion'' = Some (JStr ''automatic'')
         \<and> metadata_get md [] ''table-key-properties'' = Some (JArr [JStr ''InvoiceID''])
         \<and> metadata_get md [] ''forced-replication-method'' = Some (JStr ''INCREMENTAL'')
         \<and> metadata_get md [] ''valid-replication-keys'' = Some (JArr [JStr ''UpdatedDateUTC''])"
    by simp
  with obj prs f1 f2 bk show ?thesis by blast
qed

section \<open>Writing the refresh token back\<close>

text \<open>
  Only the last part of \<^verbatim>\<open>main_impl\<close> changes the secret store: the parts before it
  read secrets, discover and sync.
\<close>

lemma fst_bind_io:
  "fst (bind_io m f) = fst m @ (case snd m of Inl e \<Rightarrow> [] | Inr x \<Rightarrow> fst (f x))"
  by (cases m) (simp add: bind_io_pair split: sum.splits)

lemma snd_bind_io:
  "snd (bind_io m f) = (case snd m of Inl e \<Rightarrow> Inl e | Inr x \<Rightarrow> snd (f x))"
  by (cases m) (simp add: bind_io_pair split: sum.splits)

lemma quiet_bind:
  "secret_writes (fst m) = [] \<Longrightarrow> (\<And>x. secret_writes (fst (f x)) = []) \<Longrightarrow>
     secret_writes (fst (bind_io m f)) = []"
  by (simp add: fst_bind_io secret_writes_def split: sum.splits)

lemma quiet_sync_loop: "secret_writes (fst (sync_loop env ss c)) = []"
proof (induction ss arbitrary: c)
  case Nil
  show ?case by (simp add: ret_def secret_writes_def)
next
  case (Cons s ss)
  show ?case
    by (simp add: Let_def)
       (intro quiet_bind Cons.IH;
        simp add: ctx_write_state_def load_and_write_schema_def call_def pure_io_def
                  secret_writes_def fst_bind_io split: sum.splits)
qed

lemma quiet_sync: "secret_writes (fst (sync env c)) = []"
  unfolding sync_def
  by (intro quiet_bind quiet_sync_loop;
      simp add: ctx_refresh_credentials_def ctx_write_state_def call_def pure_io_def ret_def
                secret_writes_def fst_bind_io Let_def split: sum.splits)

lemma quiet_discover_loop: "secret_writes (fst (discover_loop env ss cat)) = []"
proof (induction ss arbitrary: cat)
  case Nil
  show ?case by (simp add: ret_def secret_writes_def)
next
  case (Cons s ss)
  show ?case
    by simp (intro quiet_bind Cons.IH; simp add: pure_io_def secret_writes_def)
qed

lemma quiet_discover: "secret_writes (fst (discover env c)) = []"
  unfolding discover_def
  by (intro quiet_bind quiet_discover_loop;
      simp add: ctx_check_platform_access_def call_def ret_def secret_writes_def)

lemma quiet_fetch_secrets: "secret_writes (fst (fetch_secrets env cfg)) = []"
  unfolding fetch_secrets_def Let_def
  by (intro quiet_bind; simp add: call_def pure_io_def ret_def secret_writes_def)

lemma secret_writes_simps:
  "secret_writes [] = []"
  "secret_writes (ev # tr) = (if is_secret_write ev then ev # secret_writes tr else secret_writes tr)"
  "secret_writes (tr @ tr') = secret_writes tr @ secret_writes tr'"
  by (simp_all add: secret_writes_def)

lemma quiet_run_mode: "secret_writes (fst (run_mode env a cfg)) = []"
  by (simp add: run_mode_def fst_bind_io snd_bind_io secret_writes_simps quiet_sync quiet_discover
        call_def ret_def split: option.splits prod.splits sum.splits)

lemma bind_io_case:
  "bind_io (tr, r) f =
     (case r of Inl e \<Rightarrow> (tr, Inl e)
      | Inr x \<Rightarrow> (case f x of (tr', r') \<Rightarrow> (tr @ tr', r')))"
  by (simp add: bind_io_def split: prod.splits sum.splits)

lemma write_back_cases:
  "write_back env cfg =
     (let l1 = LogInfo ''Writing back TAP_XERO_REFRESH_TOKEN to Google Secret Manager'' in
      case environ_get env ''SECRET_XERO_REFRESH_TOKEN'' of
        Inl e \<Rightarrow> ([l1], Inl e)
      | Inr secret \<Rightarrow>
          (case subscript (JObj cfg) ''refresh_token'' of
             Inl e \<Rightarrow> ([l1], Inl e)
           | Inr token \<Rightarrow>
               (case encode token of
                  Inl e \<Rightarrow> ([l1], Inl e)
                | Inr data \<Rightarrow>
                    (case add_secret_version env secret data of
                       Inl e \<Rightarrow> ([l1, AddSecretVersion secret data], Inl e)
                     | Inr name \<Rightarrow>
                         (case py_int env (last (split CHR ''/'' name)) of
                            Inl e \<Rightarrow> ([l1, AddSecretVersion secret data], Inl e)
                          | Inr n \<Rightarrow>
                              if over_digit_limit env (length (str_nat (nat \<bar>n - 1\<bar>)))
                              then ([l1, AddSecretVersion secret data], Inl ValueError)
                              else
                              (let old = secret @ ''/versions/'' @ str_int (n - 1) in
                               case destroy_secret_version env old of
                                 Inl e \<Rightarrow>
                                   ([l1, AddSecretVersion secret data, DestroySecretVersion old], Inl e)
                               | Inr u \<Rightarrow>
                                   ([l1, AddSecretVersion secret data, DestroySecretVersion old,
                                     LogInfo (''Destroyed version '' @ str_int (n - 1)
                                        @ '' TAP_XERO_REFRESH_TOKEN from Google Secret Manager'')],
                                    Inr ())))))))"
  by (simp add: write_back_def int_str_def call_def pure_io_def bind_io_case Let_def split: sum.split)

lemma main_impl_parts:
  assumes en: "secret_manager_enabled env" and run: "main_impl env = (tr, r)"
  shows "(secret_writes tr = [] \<and> (\<exists>e. r = Inl e))
       \<or> (\<exists>tr0 cfg. secret_writes tr0 = [] \<and> tr = tr0 @ fst (write_back env cfg)
                      \<and> r = snd (write_back env cfg))"
proof (cases "parse_args env REQUIRED_CONFIG_KEYS")
  case (Inl e)
  with run show ?thesis
    by (auto simp: main_impl_def pure_io_def bind_io_pair secret_writes_def)
next
  case (Inr a)
  obtain t1 r1 where p1: "fetch_secrets env (args_config a) = (t1, r1)"
    by (cases "fetch_secrets env (args_config a)")
  from quiet_fetch_secrets[of env "args_config a"] p1 have q1: "secret_writes t1 = []" by simp
  show ?thesis
  proof (cases r1)
    case (Inl e)
    with run Inr en p1 q1 show ?thesis
      by (auto simp: main_impl_def pure_io_def bind_io_pair)
  next
    case cfg: (Inr cfg)
    obtain t2 r2 where p2: "run_mode env a cfg = (t2, r2)"
      by (cases "run_mode env a cfg")
    from quiet_run_mode[of env a cfg] p2 have q2: "secret_writes t2 = []" by simp
    show ?thesis
    proof (cases r2)
      case (Inl e)
      with run Inr en p1 cfg p2 q1 q2 show ?thesis
        by (auto simp: main_impl_def pure_io_def bind_io_pair secret_writes_simps)
    next
      case cfg': (Inr cfg')
      from run Inr en p1 cfg p2 cfg'
      have "tr = (t1 @ t2) @ fst (write_back env cfg')" "r = snd (write_back env cfg')"
        by (auto simp: main_impl_def pure_io_def bind_io_pair)
      moreover from q1 q2 have "secret_writes (t1 @ t2) = []" by (simp add: secret_writes_simps)
      ultimately show ?thesis by blast
    qed
  qed
qed

lemma quiet_no_write:
  "secret_writes tr = [] \<Longrightarrow> ev \<in> set tr \<Longrightarrow> \<not> is_secret_write ev"
  by (auto simp: secret_writes_def filter_empty_conv)



lemma write_back_destroy_fails:
  assumes req: "DestroySecretVersion old \<in> set (fst (write_back env cfg))"
      and fail: "destroy_secret_version env old = Inl e"
  shows "snd (write_back env cfg) = Inl e
       \<and> last (fst (write_back env cfg)) = DestroySecretVersion old
       \<and> (\<exists>secret data name. AddSecretVersion secret data \<in> set (fst (write_back env cfg))
              \<and> add_secret_version env secret data = Inr name)"
  using assms
  by (auto simp: write_back_cases Let_def split: sum.splits if_splits)


lemma demo_main_impl_destroy_fails:
  "main_impl demo_env_destroy_fails =
    ([LogInfo ''Getting TAP_XERO_REFRESH_TOKEN from Google Secret Manager'',
      ClientFromFile None,
      AccessSecretVersion ''projects/p/secrets/token/versions/latest'',
      AccessSecretVersion ''projects/p/secrets/oauth/versions/latest'',
      RefreshCredentials,
      WriteState [(''currently_syncing'', JStr ''contacts'')],
      WriteSchema ''contacts'' (JObj [(''properties'', JObj [])]) [''id''],
      LogInfo ''Syncing stream: contacts'', StreamSync ''contacts'',
      WriteState [(''currently_syncing'', JNull)],
      LogInfo ''Writing back TAP_XERO_REFRESH_TOKEN to Google Secret Manager'',
      AddSecretVersion ''projects/p/secrets/token'' ''r1'',
      DestroySecretVersion ''projects/p/secrets/token/versions/4''],
     Inl (Raised ''NotFound''))"
  by code_simp

lemma demo_enabled:
  "secret_manager_enabled demo_env" "secret_manager_enabled demo_env_destroy_fails"
  by code_simp+



text \<open>
  Claim C4, as amended. When the secret store is enabled and a run of \<^verbatim>\<open>main_impl\<close>
  asks the store to destroy a version (which it does only after the new version was
  added) and the store raises an exception, then \<^verbatim>\<open>main_impl\<close> ends with that
  exception, the request being its last event: the destruction is not logged and nothing
  catches the exception. \<^verbatim>\<open>main\<close> logs it at critical severity and raises it again.
\<close>

theorem destroy_failure_is_fatal:
  assumes en: "secret_manager_enabled env"
      and run: "main_impl env = (tr, r)"
      and req: "DestroySecretVersion old \<in> set tr"
      and fail: "destroy_secret_version env old = Inl e"
  shows "r = Inl e \<and> last tr = DestroySecretVersion old
       \<and> main env = (tr @ [LogCritical e], Inl e)
       \<and> (\<exists>secret data name. AddSecretVersion secret data \<in> set tr
              \<and> add_secret_version env secret data = Inr name)"
proof -
  from main_impl_parts[OF en run] quiet_no_write[OF _ req]
  obtain tr0 cfg where q: "secret_writes tr0 = []"
    and tr: "tr = tr0 @ fst (write_back env cfg)"
    and r: "r = snd (write_back env cfg)"
    by auto
  from req tr quiet_no_write[OF q, of "DestroySecretVersion old"]
  have "DestroySecretVersion old \<in> set (fst (write_back env cfg))" by auto
  from write_back_destroy_fails[OF this fail]
  have r': "snd (write_back env cfg) = Inl e"
    and l: "last (fst (write_back env cfg)) = DestroySecretVersion old"
    and a: "\<exists>secret data name. AddSecretVersion secret data \<in> set (fst (write_back env cfg))
              \<and> add_secret_version env secret data = Inr name"
    by simp_all
  from a have ne: "fst (write_back env cfg) \<noteq> []" by auto
  from r r' have re: "r = Inl e" by simp
  from tr ne l have lt: "last tr = DestroySecretVersion old" by simp
  from run re have m: "main env = (tr @ [LogCritical e], Inl e)" by (simp add: main_def)
  from a tr have a': "\<exists>secret data name. AddSecretVersion secret data \<in> set tr
              \<and> add_secret_version env secret data = Inr name" by auto
  from re lt m a' show ?thesis by blast
qed

text \<open>
  A store that adds version 5 and refuses to destroy version 4: the process ends with the
  store's exception, so it does not complete successfully.
\<close>

theorem destroy_failure_swallowed_counterexample:
  "secret_manager_enabled demo_env_destroy_fails
   \<and> AddSecretVersion ''projects/p/secrets/token'' ''r1'' \<in> set (fst (main demo_env_destroy_fails))
   \<and> add_secret_version demo_env_destroy_fails ''projects/p/secrets/token'' ''r1''
       = Inr ''projects/p/secrets/token/versions/5''
   \<and> DestroySecretVersion ''projects/p/secrets/token/versions/4'' \<in> set (fst (main demo_env_destroy_fails))
   \<and> destroy_secret_version demo_env_destroy_fails ''projects/p/secrets/token/versions/4''
       = Inl (Raised ''NotFound'')
   \<and> snd (main demo_env_destroy_fails) = Inl (Raised ''NotFound'')"
  by code_simp

text \<open>The amended claim on the same deployment.\<close>

theorem destroy_failure_is_fatal_witness:
  "secret_manager_enabled demo_env_destroy_fails
   \<and> DestroySecretVersion ''projects/p/secrets/token/versions/4'' \<in> set (fst (main_impl demo_env_destroy_fails))
   \<and> destroy_secret_version demo_env_destroy_fails ''projects/p/secrets/token/versions/4''
       = Inl (Raised ''NotFound'')
   \<and> snd (main_impl demo_env_destroy_fails) = Inl (Raised ''NotFound'')
   \<and> last (fst (main_impl demo_env_destroy_fails))
       = DestroySecretVersion ''projects/p/secrets/token/versions/4''
   \<and> main demo_env_destroy_fails
       = (fst (main_impl demo_env_destroy_fails) @ [LogCritical (Raised ''NotFound'')],
          Inl (Raised ''NotFound''))"
proof -
  have run: "main_impl demo_env_destroy_fails
      = (fst (main_impl demo_env_destroy_fails), snd (main_impl demo_env_destroy_fails))"
    by simp
  have req: "DestroySecretVersion ''projects/p/secrets/token/versions/4''
      \<in> set (fst (main_impl demo_env_destroy_fails))"
    by (simp add: demo_main_impl_destroy_fails)
  have fail: "destroy_secret_version demo_env_destroy_fails ''projects/p/secrets/token/versions/4''
       = Inl (Raised ''NotFound'')"
    by (simp add: demo_env_destroy_fails_def)
  from destroy_failure_is_fatal[OF demo_enabled(2) run req fail] demo_enabled(2) req fail
  show ?thesis by simp
qed

section \<open>Schema resolution and the depth of recursion\<close>











































end
